theory Spec2Isabelle
  imports Main
begin

section \<open>Artifact filters of pkg/reg/filter/artifact.go\<close>

text \<open>
  The file filters a slice of pointers to artifact records (\<^verbatim>\<open>[]*model.Artifact\<close>) by
  a list of strategies. Several properties of interest speak about which records are new and which
  are the caller's, so the records live in an explicit store and the slices hold addresses.
\<close>

subsection \<open>Errors\<close>

text \<open>
  A Go call either returns, returns a non-nil \<^verbatim>\<open>error\<close>, or panics. \<open>Err\<close> is an error
  value handed back by a callee (pattern compilation or matching); \<open>Panic\<close> is a run-time panic.
\<close>

datatype panic = NilPointerDereference | IndexOutOfRange | InterfaceConversion

datatype error = Err string | Panic panic

subsection \<open>Package model\<close>

text \<open>
  Modelled from the spec: the record \<^verbatim>\<open>model.Artifact\<close>, whose declaration is in package
  model. The fields are the ones artifact.go reads and writes.
\<close>

record Artifact =
  Type :: string
  Digest :: string
  Labels :: "string list"
  Tags :: "string list"
  IsAcc :: bool
  ParentTags :: "string list"

text \<open>
  Modelled from the spec: the decoration constants of package model (\<^verbatim>\<open>model.Matches\<close>,
  \<^verbatim>\<open>model.Excludes\<close>).
\<close>

definition Matches :: string where
  "Matches = ''matches''"

definition Excludes :: string where
  "Excludes = ''excludes''"

text \<open>
  Modelled from the spec: the filter kinds of package model. The four constants
  \<^verbatim>\<open>model.FilterTypeLabel\<close>, \<^verbatim>\<open>model.FilterTypeTag\<close>, \<^verbatim>\<open>model.FilterTypeTagRegex\<close> and
  \<^verbatim>\<open>model.FilterTypeLabelRegex\<close> are distinct strings; every other string is
  \<open>FilterTypeOther\<close>.
\<close>

datatype FilterType =
    FilterTypeLabel
  | FilterTypeTag
  | FilterTypeTagRegex
  | FilterTypeLabelRegex
  | FilterTypeOther string

text \<open>
  The field \<^verbatim>\<open>Value\<close> of \<^verbatim>\<open>model.Filter\<close> has type \<^verbatim>\<open>interface{}\<close>: the dynamic type is
  \<^verbatim>\<open>string\<close>, \<^verbatim>\<open>[]string\<close> or anything else.
\<close>

datatype Value = StringValue string | StringsValue "string list" | OtherValue

text \<open>
  Modelled from the spec: the record \<^verbatim>\<open>model.Filter\<close>. Its field \<^verbatim>\<open>Type\<close> is called
  \<open>FType\<close> here, the name \<open>Type\<close> being taken by the artifact's field.
\<close>

record Filter =
  FType :: FilterType
  Value :: Value
  Decoration :: string

subsection \<open>The store\<close>

text \<open>
  An address is an index into the store; \<^verbatim>\<open>&model.Artifact{...}\<close> puts a record at the first
  free address. An address outside the store stands for a pointer that cannot be followed (nil):
  reading a field through it panics.
\<close>

type_synonym ptr = nat

type_synonym store = "Artifact list"

definition deref :: "store \<Rightarrow> ptr \<Rightarrow> error + Artifact" where
  "deref h p = (if p < length h then Inr (h ! p) else Inl (Panic NilPointerDereference))"

definition new :: "store \<Rightarrow> Artifact \<Rightarrow> ptr \<times> store" where
  "new h a = (length h, h @ [a])"

subsection \<open>Capabilities consumed from outside the file\<close>

text \<open>
  \<^verbatim>\<open>strings.ToLower\<close>, \<^verbatim>\<open>strings.EqualFold\<close>, \<^verbatim>\<open>util.Match\<close> (the double-star glob
  matcher) and \<^verbatim>\<open>regexp.Compile\<close> are parameters. A compiled expression is represented by its
  \<^verbatim>\<open>MatchString\<close> method.
\<close>

record env =
  ToLower :: "string \<Rightarrow> string"
  EqualFold :: "string \<Rightarrow> string \<Rightarrow> bool"
  Match :: "string \<Rightarrow> string \<Rightarrow> error + bool"
  Compile :: "string \<Rightarrow> error + (string \<Rightarrow> bool)"

subsection \<open>Strategies\<close>

text \<open>
  The interface \<^verbatim>\<open>ArtifactFilter\<close> has six implementations, each a struct with the fields
  listed.
\<close>

datatype ArtifactFilter =
    artifactTypeFilter "string list"
  | artifactLabelFilter "string list" string
  | artifactTaggedFilter bool
  | artifactTagFilter string string
  | artifactTagFilterRegex string string
  | artifactLabelFilterRegex "string list" string

text \<open>
  The test that closes every pattern filter:
  \<^verbatim>\<open>if a.decoration == model.Excludes { if !match {...} } else { if match {...} }\<close>.
\<close>

definition decorated :: "string \<Rightarrow> bool \<Rightarrow> bool" where
  "decorated decoration match = (if decoration = Excludes then \<not> match else match)"

subsubsection \<open>artifactTypeFilter.Filter (lines 101-115)\<close>

text \<open>
  The inner loop over \<^verbatim>\<open>a.types\<close>; its \<^verbatim>\<open>continue\<close> belongs to this loop, so the loop goes on
  after an append.
\<close>

fun typeFilter_types :: "env \<Rightarrow> store \<Rightarrow> ptr \<Rightarrow> string list \<Rightarrow> ptr list \<Rightarrow> error + ptr list" where
  "typeFilter_types E h p [] result = Inr result"
| "typeFilter_types E h p (t # ts) result =
     (case deref h p of
        Inl e \<Rightarrow> Inl e
      | Inr artifact \<Rightarrow>
          if EqualFold E (ToLower E (Type artifact)) (ToLower E t)
          then typeFilter_types E h p ts (result @ [p])
          else typeFilter_types E h p ts result)"

fun typeFilter_loop :: "env \<Rightarrow> string list \<Rightarrow> store \<Rightarrow> ptr list \<Rightarrow> ptr list \<Rightarrow> error + ptr list" where
  "typeFilter_loop E types h [] result = Inr result"
| "typeFilter_loop E types h (p # ps) result =
     (case typeFilter_types E h p types result of
        Inl e \<Rightarrow> Inl e
      | Inr result' \<Rightarrow> typeFilter_loop E types h ps result')"

definition artifactTypeFilter_Filter ::
  "env \<Rightarrow> string list \<Rightarrow> store \<Rightarrow> ptr list \<Rightarrow> error + (ptr list \<times> store)" where
  "artifactTypeFilter_Filter E types h artifacts =
     (if types = [] then Inr (artifacts, h)
      else case typeFilter_loop E types h artifacts [] of
             Inl e \<Rightarrow> Inl e
           | Inr result \<Rightarrow> Inr (result, h))"

subsubsection \<open>artifactLabelFilter.Filter (lines 125-154)\<close>

text \<open>The loop over \<^verbatim>\<open>a.labels\<close> with its \<^verbatim>\<open>break\<close>; \<open>labels\<close> is the map built from the artifact.\<close>

fun labelFilter_match :: "string set \<Rightarrow> string list \<Rightarrow> bool" where
  "labelFilter_match labels [] = True"
| "labelFilter_match labels (label # rest) =
     (if label \<notin> labels then False else labelFilter_match labels rest)"

fun labelFilter_loop :: "string list \<Rightarrow> string \<Rightarrow> store \<Rightarrow> ptr list \<Rightarrow> ptr list \<Rightarrow> error + ptr list" where
  "labelFilter_loop ls decoration h [] result = Inr result"
| "labelFilter_loop ls decoration h (p # ps) result =
     (case deref h p of
        Inl e \<Rightarrow> Inl e
      | Inr artifact \<Rightarrow>
          let labels = set (Labels artifact);
              match = labelFilter_match labels ls
          in labelFilter_loop ls decoration h ps
               (if decorated decoration match then result @ [p] else result))"

definition artifactLabelFilter_Filter ::
  "string list \<Rightarrow> string \<Rightarrow> store \<Rightarrow> ptr list \<Rightarrow> error + (ptr list \<times> store)" where
  "artifactLabelFilter_Filter ls decoration h artifacts =
     (if ls = [] then Inr (artifacts, h)
      else case labelFilter_loop ls decoration h artifacts [] of
             Inl e \<Rightarrow> Inl e
           | Inr result \<Rightarrow> Inr (result, h))"

subsubsection \<open>artifactTaggedFilter.Filter (lines 161-170)\<close>

fun taggedFilter_loop :: "bool \<Rightarrow> store \<Rightarrow> ptr list \<Rightarrow> ptr list \<Rightarrow> error + ptr list" where
  "taggedFilter_loop tagged h [] result = Inr result"
| "taggedFilter_loop tagged h (p # ps) result =
     (case deref h p of
        Inl e \<Rightarrow> Inl e
      | Inr artifact \<Rightarrow>
          taggedFilter_loop tagged h ps
            (if tagged \<and> length (Tags artifact) > 0 \<or> \<not> tagged \<and> length (Tags artifact) = 0
             then result @ [p] else result))"

definition artifactTaggedFilter_Filter ::
  "bool \<Rightarrow> store \<Rightarrow> ptr list \<Rightarrow> error + (ptr list \<times> store)" where
  "artifactTaggedFilter_Filter tagged h artifacts =
     (case taggedFilter_loop tagged h artifacts [] of
        Inl e \<Rightarrow> Inl e
      | Inr result \<Rightarrow> Inr (result, h))"

subsubsection \<open>artifactTagFilter.Filter (lines 178-249) and artifactTagFilterRegex.Filter (lines 258-364)\<close>

text \<open>
  Lines 269-363 repeat lines 182-248 with \<^verbatim>\<open>filterRegexPattern.MatchString\<close> in the place of
  \<^verbatim>\<open>util.Match(a.pattern, _)\<close>, so the loops take the matcher \<open>m\<close> as an argument. The glob
  matcher can return an error; the compiled expression cannot. The print statements of lines
  323-331 write to the standard output, which is not modelled.

  \<open>tagFilter_tags\<close> is the loop over \<^verbatim>\<open>tagsForMatching\<close> that collects \<^verbatim>\<open>tags\<close>.
\<close>

fun tagFilter_tags ::
  "(string \<Rightarrow> error + bool) \<Rightarrow> string \<Rightarrow> string list \<Rightarrow> string list \<Rightarrow> error + string list" where
  "tagFilter_tags m decoration [] tags = Inr tags"
| "tagFilter_tags m decoration (tag # rest) tags =
     (case m tag of
        Inl e \<Rightarrow> Inl e
      | Inr match \<Rightarrow>
          tagFilter_tags m decoration rest
            (if decorated decoration match then tags @ [tag] else tags))"

text \<open>
  Lines 186-191: an accessory is matched on its parent's tags, any other artifact on its own.
\<close>

definition tagsForMatching :: "Artifact \<Rightarrow> string list" where
  "tagsForMatching artifact = (if IsAcc artifact then ParentTags artifact else Tags artifact)"

text \<open>
  One round of the loop over the artifacts: the new \<^verbatim>\<open>result\<close> and the new store. The
  composite literals of lines 233-238 and 240-245 set four fields; \<^verbatim>\<open>IsAcc\<close> and
  \<^verbatim>\<open>ParentTags\<close> get their zero values.
\<close>

definition tagFilter_body ::
  "(string \<Rightarrow> error + bool) \<Rightarrow> string \<Rightarrow> store \<Rightarrow> ptr \<Rightarrow> ptr list \<Rightarrow> error + (ptr list \<times> store)" where
  "tagFilter_body m decoration h p result =
     (case deref h p of
        Inl e \<Rightarrow> Inl e
      | Inr artifact \<Rightarrow>
          if length (tagsForMatching artifact) = 0
          then (case m [] of
                  Inl e \<Rightarrow> Inl e
                | Inr match \<Rightarrow>
                    Inr (if decorated decoration match then result @ [p] else result, h))
          else (case tagFilter_tags m decoration (tagsForMatching artifact) [] of
                  Inl e \<Rightarrow> Inl e
                | Inr tags \<Rightarrow>
                    if length tags = 0 then Inr (result, h)
                    else if IsAcc artifact
                    then (let (q, h') = new h
                                \<lparr>Type = Type artifact, Digest = Digest artifact,
                                 Labels = Labels artifact, Tags = Tags artifact,
                                 IsAcc = False, ParentTags = []\<rparr>
                          in Inr (result @ [q], h'))
                    else (let (q, h') = new h
                                \<lparr>Type = Type artifact, Digest = Digest artifact,
                                 Labels = Labels artifact, Tags = tags,
                                 IsAcc = False, ParentTags = []\<rparr>
                          in Inr (result @ [q], h'))))"

fun tagFilter_loop ::
  "(string \<Rightarrow> error + bool) \<Rightarrow> string \<Rightarrow> store \<Rightarrow> ptr list \<Rightarrow> ptr list \<Rightarrow> error + (ptr list \<times> store)" where
  "tagFilter_loop m decoration h [] result = Inr (result, h)"
| "tagFilter_loop m decoration h (p # ps) result =
     (case tagFilter_body m decoration h p result of
        Inl e \<Rightarrow> Inl e
      | Inr (result', h') \<Rightarrow> tagFilter_loop m decoration h' ps result')"

definition artifactTagFilter_Filter ::
  "env \<Rightarrow> string \<Rightarrow> string \<Rightarrow> store \<Rightarrow> ptr list \<Rightarrow> error + (ptr list \<times> store)" where
  "artifactTagFilter_Filter E pattern decoration h artifacts =
     (if length pattern = 0 then Inr (artifacts, h)
      else tagFilter_loop (Match E pattern) decoration h artifacts [])"

definition artifactTagFilterRegex_Filter ::
  "env \<Rightarrow> string \<Rightarrow> string \<Rightarrow> store \<Rightarrow> ptr list \<Rightarrow> error + (ptr list \<times> store)" where
  "artifactTagFilterRegex_Filter E pattern decoration h artifacts =
     (if length pattern = 0 then Inr (artifacts, h)
      else case Compile E pattern of
             Inl err \<Rightarrow> Inl err
           | Inr filterRegexPattern \<Rightarrow>
               tagFilter_loop (\<lambda>tag. Inr (filterRegexPattern tag)) decoration h artifacts [])"

subsubsection \<open>artifactLabelFilterRegex.Filter (lines 372-431)\<close>

text \<open>
  The loop over \<^verbatim>\<open>artifact.Labels\<close> with index \<open>i\<close>. Each round evaluates
  \<^verbatim>\<open>artifacts[i].Digest\<close> for a print statement: the index is the label's, the slice is the
  artifact list, so the round panics when the list is not longer than \<open>i\<close>. What is printed is
  not modelled. The result is \<open>False\<close> when the loop left by \<^verbatim>\<open>break outer\<close>.
\<close>

fun labelRegex_labels ::
  "store \<Rightarrow> ptr list \<Rightarrow> (string \<Rightarrow> bool) \<Rightarrow> nat \<Rightarrow> string list \<Rightarrow> error + bool" where
  "labelRegex_labels h artifacts re i [] = Inr True"
| "labelRegex_labels h artifacts re i (lbl # lbls) =
     (let exists = re lbl
      in if i < length artifacts
         then (case deref h (artifacts ! i) of
                 Inl e \<Rightarrow> Inl e
               | Inr _ \<Rightarrow>
                   if \<not> exists then Inr False
                   else labelRegex_labels h artifacts re (Suc i) lbls)
         else Inl (Panic IndexOutOfRange))"

text \<open>The loop labelled \<^verbatim>\<open>outer\<close> over \<^verbatim>\<open>a.labels\<close>; the result is the final \<^verbatim>\<open>match\<close>.\<close>

fun labelRegex_outer ::
  "env \<Rightarrow> store \<Rightarrow> ptr list \<Rightarrow> ptr \<Rightarrow> string list \<Rightarrow> error + bool" where
  "labelRegex_outer E h artifacts p [] = Inr True"
| "labelRegex_outer E h artifacts p (label # rest) =
     (case Compile E label of
        Inl err \<Rightarrow> Inl err
      | Inr filterRegexPattern \<Rightarrow>
          (case deref h p of
             Inl e \<Rightarrow> Inl e
           | Inr artifact \<Rightarrow>
               (case labelRegex_labels h artifacts filterRegexPattern 0 (Labels artifact) of
                  Inl e \<Rightarrow> Inl e
                | Inr all_exist \<Rightarrow>
                    if all_exist then labelRegex_outer E h artifacts p rest else Inr False)))"

fun labelRegex_loop ::
  "env \<Rightarrow> string list \<Rightarrow> string \<Rightarrow> store \<Rightarrow> ptr list \<Rightarrow> ptr list \<Rightarrow> ptr list \<Rightarrow> error + ptr list" where
  "labelRegex_loop E ls decoration h artifacts [] result = Inr result"
| "labelRegex_loop E ls decoration h artifacts (p # ps) result =
     (case labelRegex_outer E h artifacts p ls of
        Inl e \<Rightarrow> Inl e
      | Inr match \<Rightarrow>
          labelRegex_loop E ls decoration h artifacts ps
            (if decorated decoration match then result @ [p] else result))"

definition artifactLabelFilterRegex_Filter ::
  "env \<Rightarrow> string list \<Rightarrow> string \<Rightarrow> store \<Rightarrow> ptr list \<Rightarrow> error + (ptr list \<times> store)" where
  "artifactLabelFilterRegex_Filter E ls decoration h artifacts =
     (if length ls = 0 then Inr (artifacts, h)
      else case labelRegex_loop E ls decoration h artifacts artifacts [] of
             Inl e \<Rightarrow> Inl e
           | Inr result \<Rightarrow> Inr (result, h))"

subsubsection \<open>The interface method and the pipeline\<close>

fun ArtifactFilter_Filter ::
  "env \<Rightarrow> ArtifactFilter \<Rightarrow> store \<Rightarrow> ptr list \<Rightarrow> error + (ptr list \<times> store)" where
  "ArtifactFilter_Filter E (artifactTypeFilter types) h artifacts =
     artifactTypeFilter_Filter E types h artifacts"
| "ArtifactFilter_Filter E (artifactLabelFilter ls decoration) h artifacts =
     artifactLabelFilter_Filter ls decoration h artifacts"
| "ArtifactFilter_Filter E (artifactTaggedFilter tagged) h artifacts =
     artifactTaggedFilter_Filter tagged h artifacts"
| "ArtifactFilter_Filter E (artifactTagFilter pattern decoration) h artifacts =
     artifactTagFilter_Filter E pattern decoration h artifacts"
| "ArtifactFilter_Filter E (artifactTagFilterRegex pattern decoration) h artifacts =
     artifactTagFilterRegex_Filter E pattern decoration h artifacts"
| "ArtifactFilter_Filter E (artifactLabelFilterRegex ls decoration) h artifacts =
     artifactLabelFilterRegex_Filter E ls decoration h artifacts"

text \<open>ArtifactFilters.Filter (lines 86-95).\<close>

fun ArtifactFilters_Filter ::
  "env \<Rightarrow> ArtifactFilter list \<Rightarrow> store \<Rightarrow> ptr list \<Rightarrow> error + (ptr list \<times> store)" where
  "ArtifactFilters_Filter E [] h artifacts = Inr (artifacts, h)"
| "ArtifactFilters_Filter E (f # a) h artifacts =
     (case ArtifactFilter_Filter E f h artifacts of
        Inl err \<Rightarrow> Inl err
      | Inr (artifacts', h') \<Rightarrow> ArtifactFilters_Filter E a h' artifacts')"

subsubsection \<open>BuildArtifactFilters (lines 37-75) and DoFilterArtifacts (lines 28-34)\<close>

text \<open>
  The \<^verbatim>\<open>switch\<close>: \<open>None\<close> is the \<^verbatim>\<open>f\<close> left nil. The type assertions
  \<^verbatim>\<open>filter.Value.([]string)\<close> and \<^verbatim>\<open>filter.Value.(string)\<close> panic on any other dynamic type.
\<close>

fun Value_strings :: "Value \<Rightarrow> error + string list" where
  "Value_strings (StringsValue ss) = Inr ss"
| "Value_strings _ = Inl (Panic InterfaceConversion)"

fun Value_string :: "Value \<Rightarrow> error + string" where
  "Value_string (StringValue s) = Inr s"
| "Value_string _ = Inl (Panic InterfaceConversion)"

definition build_switch :: "Filter \<Rightarrow> error + ArtifactFilter option" where
  "build_switch flt =
     (case FType flt of
        FilterTypeLabel \<Rightarrow>
          (case Value_strings (Value flt) of
             Inl e \<Rightarrow> Inl e
           | Inr ss \<Rightarrow> Inr (Some (artifactLabelFilter ss (Decoration flt))))
      | FilterTypeTag \<Rightarrow>
          (case Value_string (Value flt) of
             Inl e \<Rightarrow> Inl e
           | Inr s \<Rightarrow> Inr (Some (artifactTagFilter s (Decoration flt))))
      | FilterTypeTagRegex \<Rightarrow>
          (case Value_string (Value flt) of
             Inl e \<Rightarrow> Inl e
           | Inr s \<Rightarrow> Inr (Some (artifactTagFilterRegex s (Decoration flt))))
      | FilterTypeLabelRegex \<Rightarrow>
          (case Value_strings (Value flt) of
             Inl e \<Rightarrow> Inl e
           | Inr ss \<Rightarrow> Inr (Some (artifactLabelFilterRegex ss (Decoration flt))))
      | FilterTypeOther _ \<Rightarrow> Inr None)"

text \<open>
  The rule list is a slice of pointers, \<^verbatim>\<open>[]*model.Filter\<close>. The rules are not written to
  and no property depends on their addresses, so an entry is the rule it points to, \<open>Some flt\<close>,
  or nil, \<open>None\<close>. The loop reads \<^verbatim>\<open>filter.Type\<close> first (line 45), which panics on a nil
  entry.
\<close>

fun build_loop :: "Filter option list \<Rightarrow> ArtifactFilter list \<Rightarrow> error + ArtifactFilter list" where
  "build_loop [] fs = Inr fs"
| "build_loop (None # filters) fs = Inl (Panic NilPointerDereference)"
| "build_loop (Some flt # filters) fs =
     (case build_switch flt of
        Inl e \<Rightarrow> Inl e
      | Inr None \<Rightarrow> build_loop filters fs
      | Inr (Some f) \<Rightarrow> build_loop filters (fs @ [f]))"

definition BuildArtifactFilters :: "Filter option list \<Rightarrow> error + ArtifactFilter list" where
  "BuildArtifactFilters filters = build_loop filters []"

definition DoFilterArtifacts ::
  "env \<Rightarrow> store \<Rightarrow> ptr list \<Rightarrow> Filter option list \<Rightarrow> error + (ptr list \<times> store)" where
  "DoFilterArtifacts E h artifacts filters =
     (case BuildArtifactFilters filters of
        Inl err \<Rightarrow> Inl err
      | Inr fl \<Rightarrow> ArtifactFilters_Filter E fl h artifacts)"

subsection \<open>An instance of the capabilities\<close>

text \<open>
  For evaluating the filters on concrete inputs, \<open>go\<close> fixes the four capabilities on a fragment
  of their domain, where it agrees with the Go functions: case folding of the ASCII letters; glob
  patterns made of literal characters, \<^verbatim>\<open>*\<close> and \<^verbatim>\<open>?\<close> (neither of which crosses a
  \<^verbatim>\<open>/\<close>); regular expressions made of an optional leading \<^verbatim>\<open>^\<close> followed by literal
  characters and \<^verbatim>\<open>.\<close>, each optionally starred. Any other pattern is reported as an error,
  which is what Go does with the unbalanced \<^verbatim>\<open>(unterminated\<close>, the one such pattern evaluated
  below.
\<close>

definition lower_char :: "char \<Rightarrow> char" where
  "lower_char c =
     (case map_of (zip ''ABCDEFGHIJKLMNOPQRSTUVWXYZ'' ''abcdefghijklmnopqrstuvwxyz'') c of
        Some d \<Rightarrow> d
      | None \<Rightarrow> c)"

fun glob :: "string \<Rightarrow> string \<Rightarrow> bool" where
  "glob [] s = (s = [])"
| "glob (c # p) [] = (c = CHR ''*'' \<and> glob p [])"
| "glob (c # p) (x # s) =
     (if c = CHR ''*'' then glob p (x # s) \<or> (x \<noteq> CHR ''/'' \<and> glob (c # p) s)
      else (c = x \<or> c = CHR ''?'' \<and> x \<noteq> CHR ''/'') \<and> glob p s)"

definition glob_Match :: "string \<Rightarrow> string \<Rightarrow> error + bool" where
  "glob_Match pattern s =
     (if list_ex (\<lambda>c. c \<in> set (CHR 0x5C # ''[]{}'')) pattern
      then Inl (Err ''syntax error in pattern'')
      else Inr (glob pattern s))"

fun rx_items :: "string \<Rightarrow> (char \<times> bool) list" where
  "rx_items [] = []"
| "rx_items [c] = [(c, False)]"
| "rx_items (c # d # r) =
     (if d = CHR ''*'' then (c, True) # rx_items r else (c, False) # rx_items (d # r))"

definition rx_char :: "char \<Rightarrow> char \<Rightarrow> bool" where
  "rx_char c x = (c = x \<or> c = CHR ''.'' \<and> x \<noteq> CHR 0x0A)"

fun rx_here :: "(char \<times> bool) list \<Rightarrow> string \<Rightarrow> bool" where
  "rx_here [] t = True"
| "rx_here ((c, False) # r) [] = False"
| "rx_here ((c, False) # r) (x # t) = (rx_char c x \<and> rx_here r t)"
| "rx_here ((c, True) # r) [] = rx_here r []"
| "rx_here ((c, True) # r) (x # t) =
     (rx_here r (x # t) \<or> rx_char c x \<and> rx_here ((c, True) # r) t)"

fun rx_search :: "(char \<times> bool) list \<Rightarrow> string \<Rightarrow> bool" where
  "rx_search r [] = rx_here r []"
| "rx_search r (x # t) = (rx_here r (x # t) \<or> rx_search r t)"

definition rx_Compile :: "string \<Rightarrow> error + (string \<Rightarrow> bool)" where
  "rx_Compile pattern =
     (let anchored = (pattern \<noteq> [] \<and> hd pattern = CHR ''^'');
          body = (if anchored then tl pattern else pattern);
          items = rx_items body
      in if list_ex (\<lambda>(c, star). c \<in> set (CHR 0x5C # ''()[]{}+?|^$*'')) items
         then Inl (Err ''error parsing regexp'')
         else Inr (if anchored then rx_here items else rx_search items))"

definition go :: env where
  "go = \<lparr>ToLower = map lower_char,
         EqualFold = (\<lambda>s t. map lower_char s = map lower_char t),
         Match = glob_Match,
         Compile = rx_Compile\<rparr>"

subsection \<open>The builder as the spec words it\<close>

text \<open>
  The spec describes the builder as a one-to-one mapping of the rule kinds to strategies that
  skips any other kind. \<open>spec_strategy\<close> is that mapping, to be compared with
  \<open>BuildArtifactFilters\<close>; \<open>value_fits\<close> says that a rule's value has the dynamic type
  the type assertion of its kind asks for.
\<close>

fun value_fits :: "FilterType \<Rightarrow> Value \<Rightarrow> bool" where
  "value_fits FilterTypeLabel (StringsValue _) = True"
| "value_fits FilterTypeLabelRegex (StringsValue _) = True"
| "value_fits FilterTypeTag (StringValue _) = True"
| "value_fits FilterTypeTagRegex (StringValue _) = True"
| "value_fits (FilterTypeOther _) _ = True"
| "value_fits _ _ = False"

fun spec_strategy :: "FilterType \<Rightarrow> Value \<Rightarrow> string \<Rightarrow> ArtifactFilter option" where
  "spec_strategy FilterTypeLabel (StringsValue ls) d = Some (artifactLabelFilter ls d)"
| "spec_strategy FilterTypeLabelRegex (StringsValue ls) d = Some (artifactLabelFilterRegex ls d)"
| "spec_strategy FilterTypeTag (StringValue p) d = Some (artifactTagFilter p d)"
| "spec_strategy FilterTypeTagRegex (StringValue p) d = Some (artifactTagFilterRegex p d)"
| "spec_strategy _ _ _ = None"

section \<open>Properties\<close>

subsection \<open>The loop of the tag filters\<close>

lemma decorated_simps:
  "decorated Excludes b = (\<not> b)"
  "d \<noteq> Excludes \<Longrightarrow> decorated d b = b"
  by (simp_all add: decorated_def)

lemma tagFilter_tags_Inr:
  "tagFilter_tags m d ts acc = Inr tags \<Longrightarrow>
   tags = acc @ filter (\<lambda>t. decorated d (m t = Inr True)) ts"
proof (induction ts arbitrary: acc)
  case Nil
  then show ?case by simp
next
  case (Cons t ts)
  show ?case
  proof (cases "m t")
    case (Inl e)
    with Cons.prems show ?thesis by simp
  next
    case (Inr b)
    with Cons.prems have "tagFilter_tags m d ts (if decorated d b then acc @ [t] else acc) = Inr tags"
      by simp
    from Cons.IH [OF this] Inr show ?thesis by (cases b) auto
  qed
qed

lemma tagFilter_body_valid:
  "tagFilter_body m d h p res = Inr (res', h') \<Longrightarrow> p < length h"
  by (cases "p < length h") (simp_all add: tagFilter_body_def deref_def)

lemma tagFilter_body_untagged:
  assumes "tagFilter_body m d h p res = Inr (res', h')" "tagsForMatching (h ! p) = []"
  shows "h' = h \<and> (\<exists>b. m [] = Inr b \<and> res' = (if decorated d b then res @ [p] else res))"
proof -
  have "deref h p = Inr (h ! p)"
    using tagFilter_body_valid [OF assms(1)] by (simp add: deref_def)
  with assms show ?thesis
    by (cases "m []") (auto simp: tagFilter_body_def)
qed

lemma tagFilter_body_tagged:
  assumes "tagFilter_body m d h p res = Inr (res', h')" "tagsForMatching (h ! p) \<noteq> []"
  shows "if filter (\<lambda>t. decorated d (m t = Inr True)) (tagsForMatching (h ! p)) = []
         then h' = h \<and> res' = res
         else res' = res @ [length h] \<and>
              h' = h @ [\<lparr>Type = Type (h ! p), Digest = Digest (h ! p), Labels = Labels (h ! p),
                         Tags = (if IsAcc (h ! p) then Tags (h ! p)
                                 else filter (\<lambda>t. decorated d (m t = Inr True))
                                        (tagsForMatching (h ! p))),
                         IsAcc = False, ParentTags = []\<rparr>]"
proof -
  have d: "deref h p = Inr (h ! p)"
    using tagFilter_body_valid [OF assms(1)] by (simp add: deref_def)
  show ?thesis
  proof (cases "tagFilter_tags m d (tagsForMatching (h ! p)) []")
    case (Inl e)
    with assms d show ?thesis by (simp add: tagFilter_body_def)
  next
    case (Inr tags)
    from tagFilter_tags_Inr [OF Inr]
    have t: "tags = filter (\<lambda>t. decorated d (m t = Inr True)) (tagsForMatching (h ! p))" by simp
    show ?thesis
    proof (cases "tags = []")
      case True
      with assms d Inr t show ?thesis by (simp add: tagFilter_body_def)
    next
      case False
      with assms d Inr t show ?thesis
        by (cases "IsAcc (h ! p)") (simp_all add: tagFilter_body_def new_def)
    qed
  qed
qed

lemma tagFilter_body_grows:
  assumes "tagFilter_body m d h p res = Inr (res', h')"
  shows "\<exists>out new. res' = res @ out \<and> h' = h @ new"
proof (cases "tagsForMatching (h ! p) = []")
  case True
  from tagFilter_body_untagged [OF assms True] show ?thesis by auto
next
  case False
  from tagFilter_body_tagged [OF assms False] show ?thesis
    by (cases "filter (\<lambda>t. decorated d (m t = Inr True)) (tagsForMatching (h ! p)) = []") auto
qed

lemma tagFilter_body_acc:
  "tagFilter_body m d h p res =
     (case tagFilter_body m d h p [] of
        Inl e \<Rightarrow> Inl e
      | Inr (out, h') \<Rightarrow> Inr (res @ out, h'))"
proof (cases "deref h p")
  case (Inl e)
  then show ?thesis by (simp add: tagFilter_body_def)
next
  case (Inr a)
  show ?thesis
  proof (cases "tagsForMatching a = []")
    case True
    with Inr show ?thesis by (cases "m []") (simp_all add: tagFilter_body_def)
  next
    case False
    with Inr show ?thesis
      by (cases "tagFilter_tags m d (tagsForMatching a) []")
         (simp_all add: tagFilter_body_def new_def)
  qed
qed

lemma tagFilter_loop_acc:
  "tagFilter_loop m d h ps res =
     (case tagFilter_loop m d h ps [] of
        Inl e \<Rightarrow> Inl e
      | Inr (out, h') \<Rightarrow> Inr (res @ out, h'))"
proof (induction ps arbitrary: h res)
  case Nil
  show ?case by simp
next
  case (Cons p ps)
  show ?case
  proof (cases "tagFilter_body m d h p []")
    case (Inl e)
    then show ?thesis by (simp add: tagFilter_body_acc [of m d h p res])
  next
    case (Inr r)
    obtain out h1 where r: "r = (out, h1)" by (cases r)
    have a: "tagFilter_body m d h p res = Inr (res @ out, h1)"
      using Inr r by (simp add: tagFilter_body_acc [of m d h p res])
    have b: "tagFilter_loop m d h (p # ps) res = tagFilter_loop m d h1 ps (res @ out)"
      using a by simp
    have c: "tagFilter_loop m d h (p # ps) [] = tagFilter_loop m d h1 ps out"
      using Inr r by simp
    have e1: "tagFilter_loop m d h1 ps (res @ out) =
       (case tagFilter_loop m d h1 ps [] of
          Inl e \<Rightarrow> Inl e
        | Inr (out', h') \<Rightarrow> Inr ((res @ out) @ out', h'))"
      by (rule Cons.IH)
    have e2: "tagFilter_loop m d h1 ps out =
       (case tagFilter_loop m d h1 ps [] of
          Inl e \<Rightarrow> Inl e
        | Inr (out', h') \<Rightarrow> Inr (out @ out', h'))"
      by (rule Cons.IH)
    show ?thesis
      unfolding b c e1 e2 by (cases "tagFilter_loop m d h1 ps []") auto
  qed
qed

lemma tagFilter_loop_append:
  "tagFilter_loop m d h (xs @ ys) res =
     (case tagFilter_loop m d h xs res of
        Inl e \<Rightarrow> Inl e
      | Inr (r, h1) \<Rightarrow> tagFilter_loop m d h1 ys r)"
proof (induction xs arbitrary: h res)
  case Nil
  show ?case by simp
next
  case (Cons p xs)
  show ?case
  proof (cases "tagFilter_body m d h p res")
    case (Inl e)
    then show ?thesis by simp
  next
    case (Inr r)
    obtain r1 h1 where "r = (r1, h1)" by (cases r)
    with Inr Cons.IH [of h1 r1] show ?thesis by simp
  qed
qed

lemma tagFilter_loop_Cons_Inr:
  assumes "tagFilter_loop m d h (p # ps) res = Inr (res', h')"
  obtains r1 h1 where "tagFilter_body m d h p res = Inr (r1, h1)"
    and "tagFilter_loop m d h1 ps r1 = Inr (res', h')"
proof (cases "tagFilter_body m d h p res")
  case (Inl e)
  with assms show ?thesis by simp
next
  case (Inr r)
  obtain r1 h1 where "r = (r1, h1)" by (cases r)
  with Inr assms that show ?thesis by simp
qed

lemma tagFilter_loop_grows:
  "tagFilter_loop m d h ps res = Inr (res', h') \<Longrightarrow> \<exists>out new. res' = res @ out \<and> h' = h @ new"
proof (induction ps arbitrary: h res)
  case Nil
  then show ?case by simp
next
  case (Cons p ps)
  from Cons.prems obtain r1 h1 where
    b: "tagFilter_body m d h p res = Inr (r1, h1)" and l: "tagFilter_loop m d h1 ps r1 = Inr (res', h')"
    by (rule tagFilter_loop_Cons_Inr)
  from tagFilter_body_grows [OF b] Cons.IH [OF l] show ?case by auto
qed

text \<open>The run over a list that holds \<open>p\<close>, cut at \<open>p\<close>.\<close>

lemma tagFilter_loop_at:
  assumes "tagFilter_loop m d h (xs @ p # ys) [] = Inr (result, h')"
  shows "\<exists>r1 h1 out h2 r2 new1 new3.
           tagFilter_loop m d h xs [] = Inr (r1, h1) \<and> h1 = h @ new1 \<and>
           tagFilter_body m d h1 p [] = Inr (out, h2) \<and>
           result = r1 @ out @ r2 \<and> h' = h2 @ new3"
proof -
  have "tagFilter_loop m d h (xs @ p # ys) [] =
     (case tagFilter_loop m d h xs [] of
        Inl e \<Rightarrow> Inl e
      | Inr (r, h1) \<Rightarrow> tagFilter_loop m d h1 (p # ys) r)"
    by (rule tagFilter_loop_append)
  with assms obtain r1 h1 where
    x: "tagFilter_loop m d h xs [] = Inr (r1, h1)" and
    rest: "tagFilter_loop m d h1 (p # ys) r1 = Inr (result, h')"
    by (cases "tagFilter_loop m d h xs []") auto
  from rest obtain r2' h2 where
    b: "tagFilter_body m d h1 p r1 = Inr (r2', h2)" and
    y: "tagFilter_loop m d h2 ys r2' = Inr (result, h')"
    by (rule tagFilter_loop_Cons_Inr)
  from b obtain out where o: "tagFilter_body m d h1 p [] = Inr (out, h2)" and r2': "r2' = r1 @ out"
    by (cases "tagFilter_body m d h1 p []") (auto simp: tagFilter_body_acc [of m d h1 p r1])
  from tagFilter_loop_grows [OF x] obtain new1 where n1: "h1 = h @ new1" by auto
  from tagFilter_loop_grows [OF y] obtain r2 new3 where "result = r2' @ r2" "h' = h2 @ new3" by auto
  with x o r2' n1 show ?thesis by auto
qed

lemma tagFilter_loop_narrowed_at:
  assumes run: "tagFilter_loop m d h (xs @ p # ys) [] = Inr (result, h')"
    and p: "p < length h"
    and tagged: "tagsForMatching (h ! p) \<noteq> []"
    and kept: "filter (\<lambda>t. decorated d (m t = Inr True)) (tagsForMatching (h ! p)) \<noteq> []"
  shows "\<exists>r1 h1 q r2.
           tagFilter_loop m d h xs [] = Inr (r1, h1) \<and> result = r1 @ q # r2 \<and>
           length h \<le> q \<and> q < length h' \<and>
           h' ! q = \<lparr>Type = Type (h ! p), Digest = Digest (h ! p), Labels = Labels (h ! p),
                      Tags = (if IsAcc (h ! p) then Tags (h ! p)
                              else filter (\<lambda>t. decorated d (m t = Inr True))
                                     (tagsForMatching (h ! p))),
                      IsAcc = False, ParentTags = []\<rparr> \<and>
           take (length h) h' = h"
proof -
  from tagFilter_loop_at [OF run] obtain r1 h1 out h2 r2 new1 new3 where
    x: "tagFilter_loop m d h xs [] = Inr (r1, h1)" and h1: "h1 = h @ new1" and
    b: "tagFilter_body m d h1 p [] = Inr (out, h2)" and
    res: "result = r1 @ out @ r2" and h': "h' = h2 @ new3"
    by blast
  have same: "h1 ! p = h ! p" using p h1 by (simp add: nth_append)
  from tagFilter_body_tagged [OF b] tagged kept same
  have out: "out = [length h1]" and
    h2: "h2 = h1 @ [\<lparr>Type = Type (h ! p), Digest = Digest (h ! p), Labels = Labels (h ! p),
                      Tags = (if IsAcc (h ! p) then Tags (h ! p)
                              else filter (\<lambda>t. decorated d (m t = Inr True))
                                     (tagsForMatching (h ! p))),
                      IsAcc = False, ParentTags = []\<rparr>]"
    by simp_all
  have "h' ! length h1 = h2 ! length h1" using h' h2 by (simp add: nth_append)
  also have "\<dots> = \<lparr>Type = Type (h ! p), Digest = Digest (h ! p), Labels = Labels (h ! p),
                      Tags = (if IsAcc (h ! p) then Tags (h ! p)
                              else filter (\<lambda>t. decorated d (m t = Inr True))
                                     (tagsForMatching (h ! p))),
                      IsAcc = False, ParentTags = []\<rparr>"
    using h2 by simp
  finally have rec: "h' ! length h1 = \<lparr>Type = Type (h ! p), Digest = Digest (h ! p),
      Labels = Labels (h ! p),
      Tags = (if IsAcc (h ! p) then Tags (h ! p)
              else filter (\<lambda>t. decorated d (m t = Inr True)) (tagsForMatching (h ! p))),
      IsAcc = False, ParentTags = []\<rparr>" .
  have "length h \<le> length h1" "length h1 < length h'" "take (length h) h' = h"
    using h1 h2 h' by simp_all
  with x res out rec show ?thesis by auto
qed

lemma tagFilter_loop_kept_at:
  assumes run: "tagFilter_loop m d h (xs @ p # ys) [] = Inr (result, h')"
    and p: "p < length h"
    and untagged: "tagsForMatching (h ! p) = []"
    and pass: "decorated d (m [] = Inr True)"
  shows "\<exists>r1 h1 r2.
           tagFilter_loop m d h xs [] = Inr (r1, h1) \<and> result = r1 @ p # r2 \<and>
           p < length h' \<and> h' ! p = h ! p \<and> take (length h) h' = h"
proof -
  from tagFilter_loop_at [OF run] obtain r1 h1 out h2 r2 new1 new3 where
    x: "tagFilter_loop m d h xs [] = Inr (r1, h1)" and h1: "h1 = h @ new1" and
    b: "tagFilter_body m d h1 p [] = Inr (out, h2)" and
    res: "result = r1 @ out @ r2" and h': "h' = h2 @ new3"
    by blast
  have same: "h1 ! p = h ! p" using p h1 by (simp add: nth_append)
  from tagFilter_body_untagged [OF b] untagged same obtain b' where
    h2: "h2 = h1" and mb: "m [] = Inr b'" and out: "out = (if decorated d b' then [p] else [])"
    by auto
  from mb pass have "decorated d b'" by (cases b') auto
  with out have "out = [p]" by simp
  moreover have "p < length h'" "h' ! p = h ! p" "take (length h) h' = h"
    using p h1 h2 h' by (simp_all add: nth_append)
  ultimately show ?thesis using x res by auto
qed

text \<open>
  The tag filters return whenever the addresses of the list are in the store and the matcher
  gives an answer for every tag (for the regular expression: whenever the pattern compiles).
\<close>

lemma tagFilter_tags_returns:
  "\<forall>t. \<exists>b. m t = Inr b \<Longrightarrow> \<exists>tags. tagFilter_tags m d ts acc = Inr tags"
proof (induction ts arbitrary: acc)
  case Nil
  show ?case by simp
next
  case (Cons t ts)
  from Cons.prems obtain b where "m t = Inr b" by blast
  with Cons.IH [OF Cons.prems] show ?case by simp
qed

lemma tagFilter_body_returns:
  assumes "\<forall>t. \<exists>b. m t = Inr b" and "p < length h"
  shows "\<exists>res' h'. tagFilter_body m d h p res = Inr (res', h')"
proof -
  from assms(1) obtain b where b: "m [] = Inr b" by blast
  from tagFilter_tags_returns [OF assms(1)] obtain tags where
    t: "tagFilter_tags m d (tagsForMatching (h ! p)) [] = Inr tags" by blast
  from assms(2) b t show ?thesis
    by (simp add: tagFilter_body_def deref_def new_def)
qed

lemma tagFilter_loop_returns:
  "\<forall>t. \<exists>b. m t = Inr b \<Longrightarrow> \<forall>p \<in> set ps. p < length h \<Longrightarrow>
   \<exists>res' h'. tagFilter_loop m d h ps res = Inr (res', h')"
proof (induction ps arbitrary: h res)
  case Nil
  show ?case by simp
next
  case (Cons p ps)
  from Cons.prems(2) have "p < length h" by simp
  from tagFilter_body_returns [OF Cons.prems(1) this] obtain r1 h1 where
    b: "tagFilter_body m d h p res = Inr (r1, h1)" by blast
  from tagFilter_body_grows [OF b] obtain new where "h1 = h @ new" by auto
  with Cons.prems(2) have "\<forall>p \<in> set ps. p < length h1" by auto
  from Cons.IH [OF Cons.prems(1) this] b show ?case by simp
qed

lemma tag_filters_return:
  assumes "\<forall>p \<in> set artifacts. p < length h"
  shows "\<forall>t. \<exists>b. Match E pattern t = Inr b \<Longrightarrow>
         \<exists>result h'. artifactTagFilter_Filter E pattern decoration h artifacts = Inr (result, h')"
    and "Compile E pattern = Inr re \<Longrightarrow>
         \<exists>result h'. artifactTagFilterRegex_Filter E pattern decoration h artifacts = Inr (result, h')"
proof -
  assume "\<forall>t. \<exists>b. Match E pattern t = Inr b"
  from tagFilter_loop_returns [OF this assms]
  show "\<exists>result h'. artifactTagFilter_Filter E pattern decoration h artifacts = Inr (result, h')"
    by (simp add: artifactTagFilter_Filter_def)
next
  assume re: "Compile E pattern = Inr re"
  have "\<forall>t. \<exists>b. (\<lambda>tag. Inr (re tag) :: error + bool) t = Inr b" by simp
  from tagFilter_loop_returns [OF this assms] re
  show "\<exists>result h'. artifactTagFilterRegex_Filter E pattern decoration h artifacts = Inr (result, h')"
    by (simp add: artifactTagFilterRegex_Filter_def)
qed

lemmas tag_eval = artifactTagFilter_Filter_def artifactTagFilterRegex_Filter_def tagFilter_body_def
  deref_def new_def tagsForMatching_def decorated_def Matches_def Excludes_def
  go_def glob_Match_def rx_Compile_def rx_char_def

lemma rx_v: "Compile go ''^v.*'' = Inr (rx_here [(CHR ''v'', False), (CHR ''.'', True)])"
  by (simp add: go_def rx_Compile_def)

subsection \<open>Label patterns\<close>

text \<open>
  Claim C1 says that an artifact satisfies a list of label patterns when every pattern matches at
  least one of its labels, and that an artifact without labels never does. The loop leaves by
  \<^verbatim>\<open>break outer\<close> at the first label a pattern does not match, and never sets
  \<^verbatim>\<open>match\<close> to false for an artifact without labels. Evaluated on two artifacts, the first
  labelled \<^verbatim>\<open>v1.0\<close> and \<^verbatim>\<open>stable\<close>, the second without labels, under the patterns
  \<^verbatim>\<open>^v.*\<close> and \<^verbatim>\<open>^s.*\<close> with decoration Matches, the filter drops the first and keeps
  the second.
\<close>

theorem labelRegex_needs_every_label_to_match:
  "artifactLabelFilterRegex_Filter go [''^v.*'', ''^s.*''] Matches
     [\<lparr>Type = ''image'', Digest = ''sha256:aa'', Labels = [''v1.0'', ''stable''], Tags = [''v1''],
       IsAcc = False, ParentTags = []\<rparr>,
      \<lparr>Type = ''image'', Digest = ''sha256:bb'', Labels = [], Tags = [''v2''],
       IsAcc = False, ParentTags = []\<rparr>]
     [0, 1]
   = Inr ([1],
     [\<lparr>Type = ''image'', Digest = ''sha256:aa'', Labels = [''v1.0'', ''stable''], Tags = [''v1''],
       IsAcc = False, ParentTags = []\<rparr>,
      \<lparr>Type = ''image'', Digest = ''sha256:bb'', Labels = [], Tags = [''v2''],
       IsAcc = False, ParentTags = []\<rparr>])"
  by (simp add: artifactLabelFilterRegex_Filter_def deref_def go_def rx_Compile_def rx_char_def
      decorated_def Matches_def Excludes_def)

text \<open>
  Claim C2 says that a pattern that does not compile makes the label-regex filter fail whatever
  the artifact list is. The patterns are compiled inside the two loops: with no artifact nothing is
  compiled, and a pattern placed after one that already failed on a label is never reached. Both
  calls below return without error although \<^verbatim>\<open>(unterminated\<close> does not compile.
\<close>

theorem labelRegex_compiles_inside_the_loops:
  "Compile go ''(unterminated'' = Inl (Err ''error parsing regexp'')
   \<and> artifactLabelFilterRegex_Filter go [''(unterminated''] Matches h [] = Inr ([], h)
   \<and> artifactLabelFilterRegex_Filter go [''^v.*'', ''(unterminated''] Matches
        [\<lparr>Type = ''image'', Digest = ''sha256:aa'', Labels = [''stable''], Tags = [''v1''],
          IsAcc = False, ParentTags = []\<rparr>]
        [0]
      = Inr ([],
        [\<lparr>Type = ''image'', Digest = ''sha256:aa'', Labels = [''stable''], Tags = [''v1''],
          IsAcc = False, ParentTags = []\<rparr>])"
  by (simp add: artifactLabelFilterRegex_Filter_def deref_def go_def rx_Compile_def rx_char_def
      decorated_def Matches_def Excludes_def)

subsection \<open>Tag rules\<close>

text \<open>
  Claim C3: under a tag rule (glob or regular expression) with decoration Matches, an accessory
  whose parent tags pass the check (one of them matches, or there is none and the empty string
  matches) is emitted, right after what the artifacts before it produced, as a record that
  carries the accessory's own tags, type, digest and labels.
\<close>

theorem accessory_keeps_own_tags:
  assumes "decoration \<noteq> Excludes" and "p < length h" and "IsAcc (h ! p)"
  shows "(artifactTagFilter_Filter E pattern decoration h (xs @ p # ys) = Inr (result, h') \<longrightarrow>
          (ParentTags (h ! p) = [] \<and> Match E pattern [] = Inr True
           \<or> (\<exists>t \<in> set (ParentTags (h ! p)). Match E pattern t = Inr True)) \<longrightarrow>
          (\<exists>r1 h1 q r2.
             artifactTagFilter_Filter E pattern decoration h xs = Inr (r1, h1) \<and>
             result = r1 @ q # r2 \<and> q < length h' \<and>
             Tags (h' ! q) = Tags (h ! p) \<and> Type (h' ! q) = Type (h ! p) \<and>
             Digest (h' ! q) = Digest (h ! p) \<and> Labels (h' ! q) = Labels (h ! p)))
       \<and> (artifactTagFilterRegex_Filter E pattern decoration h (xs @ p # ys) = Inr (result, h') \<longrightarrow>
          Compile E pattern = Inr re \<longrightarrow>
          (ParentTags (h ! p) = [] \<and> re [] \<or> (\<exists>t \<in> set (ParentTags (h ! p)). re t)) \<longrightarrow>
          (\<exists>r1 h1 q r2.
             artifactTagFilterRegex_Filter E pattern decoration h xs = Inr (r1, h1) \<and>
             result = r1 @ q # r2 \<and> q < length h' \<and>
             Tags (h' ! q) = Tags (h ! p) \<and> Type (h' ! q) = Type (h ! p) \<and>
             Digest (h' ! q) = Digest (h ! p) \<and> Labels (h' ! q) = Labels (h ! p)))"
proof -
  have src: "tagsForMatching (h ! p) = ParentTags (h ! p)"
    using assms(3) by (simp add: tagsForMatching_def)
  have dec: "\<And>b. decorated decoration b = b"
    using assms(1) by (simp add: decorated_def)
  have generic: "\<exists>r1 h1 q r2.
             tagFilter_loop m decoration h xs [] = Inr (r1, h1) \<and>
             result = r1 @ q # r2 \<and> q < length h' \<and>
             Tags (h' ! q) = Tags (h ! p) \<and> Type (h' ! q) = Type (h ! p) \<and>
             Digest (h' ! q) = Digest (h ! p) \<and> Labels (h' ! q) = Labels (h ! p)"
    if loop: "tagFilter_loop m decoration h (xs @ p # ys) [] = Inr (result, h')"
      and pass: "ParentTags (h ! p) = [] \<and> m [] = Inr True
                 \<or> (\<exists>t \<in> set (ParentTags (h ! p)). m t = Inr True)"
    for m
  proof (cases "ParentTags (h ! p) = []")
    case True
    with pass have "decorated decoration (m [] = Inr True)" by (simp add: dec)
    from tagFilter_loop_kept_at [OF loop assms(2) _ this] True src
    show ?thesis by auto
  next
    case False
    with pass have "\<exists>t \<in> set (ParentTags (h ! p)). m t = Inr True" by simp
    then have kept: "filter (\<lambda>t. decorated decoration (m t = Inr True))
        (tagsForMatching (h ! p)) \<noteq> []"
      using src dec by (auto simp: filter_empty_conv)
    from False src have tagged: "tagsForMatching (h ! p) \<noteq> []" by simp
    from tagFilter_loop_narrowed_at [OF loop assms(2) tagged kept] assms(3)
    show ?thesis by auto
  qed
  show ?thesis
  proof (intro conjI impI)
    assume run: "artifactTagFilter_Filter E pattern decoration h (xs @ p # ys) = Inr (result, h')"
      and pass: "ParentTags (h ! p) = [] \<and> Match E pattern [] = Inr True
           \<or> (\<exists>t \<in> set (ParentTags (h ! p)). Match E pattern t = Inr True)"
    show "\<exists>r1 h1 q r2.
             artifactTagFilter_Filter E pattern decoration h xs = Inr (r1, h1) \<and>
             result = r1 @ q # r2 \<and> q < length h' \<and>
             Tags (h' ! q) = Tags (h ! p) \<and> Type (h' ! q) = Type (h ! p) \<and>
             Digest (h' ! q) = Digest (h ! p) \<and> Labels (h' ! q) = Labels (h ! p)"
    proof (cases "pattern = []")
      case True
      with run assms(2) show ?thesis by (auto simp: artifactTagFilter_Filter_def)
    next
      case False
      with run
      have loop: "tagFilter_loop (Match E pattern) decoration h (xs @ p # ys) [] = Inr (result, h')"
        by (simp add: artifactTagFilter_Filter_def)
      from generic [OF loop pass] False show ?thesis
        by (simp add: artifactTagFilter_Filter_def)
    qed
  next
    assume run: "artifactTagFilterRegex_Filter E pattern decoration h (xs @ p # ys) = Inr (result, h')"
      and re: "Compile E pattern = Inr re"
      and pass: "ParentTags (h ! p) = [] \<and> re [] \<or> (\<exists>t \<in> set (ParentTags (h ! p)). re t)"
    from pass have pass': "ParentTags (h ! p) = [] \<and> (\<lambda>tag. Inr (re tag) :: error + bool) [] = Inr True
           \<or> (\<exists>t \<in> set (ParentTags (h ! p)). (\<lambda>tag. Inr (re tag) :: error + bool) t = Inr True)"
      by simp
    show "\<exists>r1 h1 q r2.
             artifactTagFilterRegex_Filter E pattern decoration h xs = Inr (r1, h1) \<and>
             result = r1 @ q # r2 \<and> q < length h' \<and>
             Tags (h' ! q) = Tags (h ! p) \<and> Type (h' ! q) = Type (h ! p) \<and>
             Digest (h' ! q) = Digest (h ! p) \<and> Labels (h' ! q) = Labels (h ! p)"
    proof (cases "pattern = []")
      case True
      with run assms(2) show ?thesis by (auto simp: artifactTagFilterRegex_Filter_def)
    next
      case False
      with run re
      have loop: "tagFilter_loop (\<lambda>tag. Inr (re tag)) decoration h (xs @ p # ys) []
          = Inr (result, h')"
        by (simp add: artifactTagFilterRegex_Filter_def)
      from generic [OF loop pass'] False re show ?thesis
        by (simp add: artifactTagFilterRegex_Filter_def)
    qed
  qed
qed

theorem accessory_keeps_own_tags_witness:
  "artifactTagFilter_Filter go ''v*'' Matches
     [\<lparr>Type = ''signature'', Digest = ''sha256:cc'', Labels = [], Tags = [],
       IsAcc = True, ParentTags = [''v1'']\<rparr>] [0]
   = Inr ([1],
     [\<lparr>Type = ''signature'', Digest = ''sha256:cc'', Labels = [], Tags = [],
       IsAcc = True, ParentTags = [''v1'']\<rparr>,
      \<lparr>Type = ''signature'', Digest = ''sha256:cc'', Labels = [], Tags = [],
       IsAcc = False, ParentTags = []\<rparr>])
   \<and> (\<exists>r1 h1 q r2.
         artifactTagFilter_Filter go ''v*'' Matches
           [\<lparr>Type = ''signature'', Digest = ''sha256:cc'', Labels = [], Tags = [],
             IsAcc = True, ParentTags = [''v1'']\<rparr>] [] = Inr (r1, h1) \<and>
         [1] = r1 @ q # r2 \<and>
         Tags ([\<lparr>Type = ''signature'', Digest = ''sha256:cc'', Labels = [], Tags = [],
                  IsAcc = True, ParentTags = [''v1'']\<rparr>,
                \<lparr>Type = ''signature'', Digest = ''sha256:cc'', Labels = [], Tags = [],
                  IsAcc = False, ParentTags = []\<rparr>] ! q) = [])"
proof -
  let ?a = "\<lparr>Type = ''signature'', Digest = ''sha256:cc'', Labels = [], Tags = [],
       IsAcc = True, ParentTags = [''v1'']\<rparr>"
  let ?b = "\<lparr>Type = ''signature'', Digest = ''sha256:cc'', Labels = [], Tags = [],
       IsAcc = False, ParentTags = []\<rparr>"
  have run: "artifactTagFilter_Filter go ''v*'' Matches [?a] ([] @ 0 # []) = Inr ([1], [?a, ?b])"
    by (simp add: tag_eval)
  have pass: "ParentTags ([?a] ! 0) = [] \<and> Match go ''v*'' [] = Inr True
           \<or> (\<exists>t \<in> set (ParentTags ([?a] ! 0)). Match go ''v*'' t = Inr True)"
    by (simp add: tag_eval)
  have "\<exists>r1 h1 q r2.
             artifactTagFilter_Filter go ''v*'' Matches [?a] [] = Inr (r1, h1) \<and>
             [1] = r1 @ q # r2 \<and> q < length [?a, ?b] \<and>
             Tags ([?a, ?b] ! q) = Tags ([?a] ! 0) \<and> Type ([?a, ?b] ! q) = Type ([?a] ! 0) \<and>
             Digest ([?a, ?b] ! q) = Digest ([?a] ! 0) \<and> Labels ([?a, ?b] ! q) = Labels ([?a] ! 0)"
    using accessory_keeps_own_tags [where pattern = "''v*''" and decoration = Matches and p = 0
        and h = "[?a]" and E = go and xs = "[]" and ys = "[]" and result = "[1]" and h' = "[?a, ?b]",
        THEN conjunct1, rule_format, OF _ _ _ run pass]
    by (simp add: Matches_def Excludes_def)
  with run show ?thesis by auto
qed

text \<open>
  Claim C5: under a tag rule with a non-empty pattern and decoration Matches, an artifact that is
  not an accessory and has a matching tag is emitted as a record at an address that was free
  before the call; the record holds the matching tags in their order, the type, digest and labels
  of the input, and every record of the store before the call is still there unchanged.
\<close>

theorem tag_narrowing_new_record:
  assumes "pattern \<noteq> []" and "decoration \<noteq> Excludes" and "p < length h" and "\<not> IsAcc (h ! p)"
  shows "(artifactTagFilter_Filter E pattern decoration h (xs @ p # ys) = Inr (result, h') \<longrightarrow>
          (\<exists>t \<in> set (Tags (h ! p)). Match E pattern t = Inr True) \<longrightarrow>
          (\<exists>r1 h1 q r2.
             artifactTagFilter_Filter E pattern decoration h xs = Inr (r1, h1) \<and>
             result = r1 @ q # r2 \<and> length h \<le> q \<and> q < length h' \<and>
             h' ! q = \<lparr>Type = Type (h ! p), Digest = Digest (h ! p), Labels = Labels (h ! p),
                        Tags = filter (\<lambda>t. Match E pattern t = Inr True) (Tags (h ! p)),
                        IsAcc = False, ParentTags = []\<rparr> \<and>
             take (length h) h' = h))
       \<and> (artifactTagFilterRegex_Filter E pattern decoration h (xs @ p # ys) = Inr (result, h') \<longrightarrow>
          Compile E pattern = Inr re \<longrightarrow>
          (\<exists>t \<in> set (Tags (h ! p)). re t) \<longrightarrow>
          (\<exists>r1 h1 q r2.
             artifactTagFilterRegex_Filter E pattern decoration h xs = Inr (r1, h1) \<and>
             result = r1 @ q # r2 \<and> length h \<le> q \<and> q < length h' \<and>
             h' ! q = \<lparr>Type = Type (h ! p), Digest = Digest (h ! p), Labels = Labels (h ! p),
                        Tags = filter re (Tags (h ! p)),
                        IsAcc = False, ParentTags = []\<rparr> \<and>
             take (length h) h' = h))"
proof (intro conjI impI)
  have src: "tagsForMatching (h ! p) = Tags (h ! p)"
    using assms(4) by (simp add: tagsForMatching_def)
  have dec: "\<And>b. decorated decoration b = b"
    using assms(2) by (simp add: decorated_def)
  {
    assume run: "artifactTagFilter_Filter E pattern decoration h (xs @ p # ys) = Inr (result, h')"
      and some: "\<exists>t \<in> set (Tags (h ! p)). Match E pattern t = Inr True"
    from run assms(1)
    have loop: "tagFilter_loop (Match E pattern) decoration h (xs @ p # ys) [] = Inr (result, h')"
      by (simp add: artifactTagFilter_Filter_def)
    from some have tagged: "tagsForMatching (h ! p) \<noteq> []" using src by auto
    from some have kept: "filter (\<lambda>t. decorated decoration (Match E pattern t = Inr True))
        (tagsForMatching (h ! p)) \<noteq> []"
      using src dec by (auto simp: filter_empty_conv)
    from tagFilter_loop_narrowed_at [OF loop assms(3) tagged kept]
    show "\<exists>r1 h1 q r2.
             artifactTagFilter_Filter E pattern decoration h xs = Inr (r1, h1) \<and>
             result = r1 @ q # r2 \<and> length h \<le> q \<and> q < length h' \<and>
             h' ! q = \<lparr>Type = Type (h ! p), Digest = Digest (h ! p), Labels = Labels (h ! p),
                        Tags = filter (\<lambda>t. Match E pattern t = Inr True) (Tags (h ! p)),
                        IsAcc = False, ParentTags = []\<rparr> \<and>
             take (length h) h' = h"
      using assms(1,4) src dec by (simp add: artifactTagFilter_Filter_def)
  }
  {
    assume run: "artifactTagFilterRegex_Filter E pattern decoration h (xs @ p # ys) = Inr (result, h')"
      and re: "Compile E pattern = Inr re"
      and some: "\<exists>t \<in> set (Tags (h ! p)). re t"
    from run assms(1) re
    have loop: "tagFilter_loop (\<lambda>tag. Inr (re tag)) decoration h (xs @ p # ys) [] = Inr (result, h')"
      by (simp add: artifactTagFilterRegex_Filter_def)
    from some have tagged: "tagsForMatching (h ! p) \<noteq> []" using src by auto
    from some have kept: "filter (\<lambda>t. decorated decoration ((\<lambda>tag. Inr (re tag) :: error + bool) t = Inr True))
        (tagsForMatching (h ! p)) \<noteq> []"
      using src dec by (auto simp: filter_empty_conv)
    from tagFilter_loop_narrowed_at [OF loop assms(3) tagged kept]
    show "\<exists>r1 h1 q r2.
             artifactTagFilterRegex_Filter E pattern decoration h xs = Inr (r1, h1) \<and>
             result = r1 @ q # r2 \<and> length h \<le> q \<and> q < length h' \<and>
             h' ! q = \<lparr>Type = Type (h ! p), Digest = Digest (h ! p), Labels = Labels (h ! p),
                        Tags = filter re (Tags (h ! p)),
                        IsAcc = False, ParentTags = []\<rparr> \<and>
             take (length h) h' = h"
      using assms(1,4) src dec re by (simp add: artifactTagFilterRegex_Filter_def)
  }
qed

theorem tag_narrowing_new_record_witness:
  "artifactTagFilter_Filter go ''v*'' Matches
     [\<lparr>Type = ''image'', Digest = ''sha256:aa'', Labels = [''stable''],
       Tags = [''v1'', ''v2'', ''latest''], IsAcc = False, ParentTags = []\<rparr>] [0]
   = Inr ([1],
     [\<lparr>Type = ''image'', Digest = ''sha256:aa'', Labels = [''stable''],
       Tags = [''v1'', ''v2'', ''latest''], IsAcc = False, ParentTags = []\<rparr>,
      \<lparr>Type = ''image'', Digest = ''sha256:aa'', Labels = [''stable''],
       Tags = [''v1'', ''v2''], IsAcc = False, ParentTags = []\<rparr>])
   \<and> artifactTagFilterRegex_Filter go ''^v.*'' Matches
     [\<lparr>Type = ''image'', Digest = ''sha256:aa'', Labels = [''stable''],
       Tags = [''v1'', ''v2'', ''latest''], IsAcc = False, ParentTags = []\<rparr>] [0]
   = Inr ([1],
     [\<lparr>Type = ''image'', Digest = ''sha256:aa'', Labels = [''stable''],
       Tags = [''v1'', ''v2'', ''latest''], IsAcc = False, ParentTags = []\<rparr>,
      \<lparr>Type = ''image'', Digest = ''sha256:aa'', Labels = [''stable''],
       Tags = [''v1'', ''v2''], IsAcc = False, ParentTags = []\<rparr>])
   \<and> (\<exists>q. (1::nat) \<le> q \<and> q < 2 \<and>
         [\<lparr>Type = ''image'', Digest = ''sha256:aa'', Labels = [''stable''],
           Tags = [''v1'', ''v2'', ''latest''], IsAcc = False, ParentTags = []\<rparr>,
          \<lparr>Type = ''image'', Digest = ''sha256:aa'', Labels = [''stable''],
           Tags = [''v1'', ''v2''], IsAcc = False, ParentTags = []\<rparr>] ! q
         = \<lparr>Type = ''image'', Digest = ''sha256:aa'', Labels = [''stable''],
            Tags = filter (\<lambda>t. Match go ''v*'' t = Inr True) [''v1'', ''v2'', ''latest''],
            IsAcc = False, ParentTags = []\<rparr>)
   \<and> (\<exists>q. (1::nat) \<le> q \<and> q < 2 \<and>
         [\<lparr>Type = ''image'', Digest = ''sha256:aa'', Labels = [''stable''],
           Tags = [''v1'', ''v2'', ''latest''], IsAcc = False, ParentTags = []\<rparr>,
          \<lparr>Type = ''image'', Digest = ''sha256:aa'', Labels = [''stable''],
           Tags = [''v1'', ''v2''], IsAcc = False, ParentTags = []\<rparr>] ! q
         = \<lparr>Type = ''image'', Digest = ''sha256:aa'', Labels = [''stable''],
            Tags = filter (rx_here [(CHR ''v'', False), (CHR ''.'', True)]) [''v1'', ''v2'', ''latest''],
            IsAcc = False, ParentTags = []\<rparr>)"
proof -
  let ?a = "\<lparr>Type = ''image'', Digest = ''sha256:aa'', Labels = [''stable''],
       Tags = [''v1'', ''v2'', ''latest''], IsAcc = False, ParentTags = []\<rparr>"
  let ?b = "\<lparr>Type = ''image'', Digest = ''sha256:aa'', Labels = [''stable''],
       Tags = [''v1'', ''v2''], IsAcc = False, ParentTags = []\<rparr>"
  let ?re = "rx_here [(CHR ''v'', False), (CHR ''.'', True)]"
  have run: "artifactTagFilter_Filter go ''v*'' Matches [?a] ([] @ 0 # []) = Inr ([1], [?a, ?b])"
    by (simp add: tag_eval)
  have some: "\<exists>t \<in> set (Tags ([?a] ! 0)). Match go ''v*'' t = Inr True"
    by (simp add: tag_eval)
  have runx: "artifactTagFilterRegex_Filter go ''^v.*'' Matches [?a] ([] @ 0 # []) = Inr ([1], [?a, ?b])"
    by (simp add: tag_eval)
  have somex: "\<exists>t \<in> set (Tags ([?a] ! 0)). ?re t"
    by (simp add: rx_char_def)
  have g: "\<exists>r1 h1 q r2.
             artifactTagFilter_Filter go ''v*'' Matches [?a] [] = Inr (r1, h1) \<and>
             [1] = r1 @ q # r2 \<and> length [?a] \<le> q \<and> q < length [?a, ?b] \<and>
             [?a, ?b] ! q = \<lparr>Type = Type ([?a] ! 0), Digest = Digest ([?a] ! 0),
                        Labels = Labels ([?a] ! 0),
                        Tags = filter (\<lambda>t. Match go ''v*'' t = Inr True) (Tags ([?a] ! 0)),
                        IsAcc = False, ParentTags = []\<rparr> \<and>
             take (length [?a]) [?a, ?b] = [?a]"
    using tag_narrowing_new_record [where pattern = "''v*''" and decoration = Matches and p = 0
        and h = "[?a]" and E = go and xs = "[]" and ys = "[]" and result = "[1]" and h' = "[?a, ?b]",
        THEN conjunct1, rule_format, OF _ _ _ _ run some]
    by (simp add: Matches_def Excludes_def)
  have x: "\<exists>r1 h1 q r2.
             artifactTagFilterRegex_Filter go ''^v.*'' Matches [?a] [] = Inr (r1, h1) \<and>
             [1] = r1 @ q # r2 \<and> length [?a] \<le> q \<and> q < length [?a, ?b] \<and>
             [?a, ?b] ! q = \<lparr>Type = Type ([?a] ! 0), Digest = Digest ([?a] ! 0),
                        Labels = Labels ([?a] ! 0),
                        Tags = filter ?re (Tags ([?a] ! 0)),
                        IsAcc = False, ParentTags = []\<rparr> \<and>
             take (length [?a]) [?a, ?b] = [?a]"
    using tag_narrowing_new_record [where pattern = "''^v.*''" and decoration = Matches and p = 0
        and h = "[?a]" and E = go and xs = "[]" and ys = "[]" and result = "[1]" and h' = "[?a, ?b]"
        and re = ?re,
        THEN conjunct2, rule_format, OF _ _ _ _ runx rx_v somex]
    by (simp add: Matches_def Excludes_def)
  from g obtain q where "1 \<le> q" "q < 2" "[?a, ?b] ! q = \<lparr>Type = ''image'', Digest = ''sha256:aa'',
      Labels = [''stable''], Tags = filter (\<lambda>t. Match go ''v*'' t = Inr True) [''v1'', ''v2'', ''latest''],
      IsAcc = False, ParentTags = []\<rparr>"
    by auto
  then have g': "\<exists>q. (1::nat) \<le> q \<and> q < 2 \<and> [?a, ?b] ! q = \<lparr>Type = ''image'', Digest = ''sha256:aa'',
      Labels = [''stable''], Tags = filter (\<lambda>t. Match go ''v*'' t = Inr True) [''v1'', ''v2'', ''latest''],
      IsAcc = False, ParentTags = []\<rparr>"
    by blast
  from x obtain q where "1 \<le> q" "q < 2" "[?a, ?b] ! q = \<lparr>Type = ''image'', Digest = ''sha256:aa'',
      Labels = [''stable''], Tags = filter ?re [''v1'', ''v2'', ''latest''],
      IsAcc = False, ParentTags = []\<rparr>"
    by auto
  then have x': "\<exists>q. (1::nat) \<le> q \<and> q < 2 \<and> [?a, ?b] ! q = \<lparr>Type = ''image'', Digest = ''sha256:aa'',
      Labels = [''stable''], Tags = filter ?re [''v1'', ''v2'', ''latest''],
      IsAcc = False, ParentTags = []\<rparr>"
    by blast
  from run runx g' x' show ?thesis by simp
qed

lemma tagFilter_loop_new_records:
  "tagFilter_loop m d h ps res = Inr (res', h') \<Longrightarrow> length h \<le> q \<Longrightarrow> q < length h' \<Longrightarrow>
   \<not> IsAcc (h' ! q) \<and> ParentTags (h' ! q) = []"
proof (induction ps arbitrary: h res)
  case Nil
  then show ?case by simp
next
  case (Cons p ps)
  from Cons.prems(1) obtain r1 h1 where
    b: "tagFilter_body m d h p res = Inr (r1, h1)" and l: "tagFilter_loop m d h1 ps r1 = Inr (res', h')"
    by (rule tagFilter_loop_Cons_Inr)
  show ?case
  proof (cases "length h1 \<le> q")
    case True
    from Cons.IH [OF l True Cons.prems(3)] show ?thesis .
  next
    case False
    from tagFilter_loop_grows [OF l] obtain new where h': "h' = h1 @ new" by auto
    from False Cons.prems(2) have ne: "h1 \<noteq> h" by auto
    have tagged: "tagsForMatching (h ! p) \<noteq> []"
      using tagFilter_body_untagged [OF b] ne by auto
    from tagFilter_body_tagged [OF b tagged] ne
    have h1: "h1 = h @ [\<lparr>Type = Type (h ! p), Digest = Digest (h ! p), Labels = Labels (h ! p),
                         Tags = (if IsAcc (h ! p) then Tags (h ! p)
                                 else filter (\<lambda>t. decorated d (m t = Inr True))
                                        (tagsForMatching (h ! p))),
                         IsAcc = False, ParentTags = []\<rparr>]"
      by (auto split: if_splits)
    with False Cons.prems(2) have q: "q = length h" by simp
    have "h' ! q = h1 ! q" using h' False by (simp add: nth_append)
    also have "\<dots> = \<lparr>Type = Type (h ! p), Digest = Digest (h ! p), Labels = Labels (h ! p),
                         Tags = (if IsAcc (h ! p) then Tags (h ! p)
                                 else filter (\<lambda>t. decorated d (m t = Inr True))
                                        (tagsForMatching (h ! p))),
                         IsAcc = False, ParentTags = []\<rparr>"
      by (subst h1) (simp add: q)
    finally show ?thesis by simp
  qed
qed

lemma tagFilter_body_out:
  assumes "tagFilter_body m d h p res = Inr (res', h')" and "q \<in> set res'"
  shows "q \<in> set res \<or> (q = p \<and> p < length h \<and> tagsForMatching (h ! p) = []) \<or> length h \<le> q"
proof (cases "tagsForMatching (h ! p) = []")
  case True
  from tagFilter_body_untagged [OF assms(1) True] tagFilter_body_valid [OF assms(1)] assms(2) True
  show ?thesis by (auto split: if_splits)
next
  case False
  from tagFilter_body_tagged [OF assms(1) False] assms(2)
  show ?thesis by (auto split: if_splits)
qed

lemma tagFilter_loop_out:
  "tagFilter_loop m d h ps res = Inr (res', h') \<Longrightarrow> q \<in> set res' \<Longrightarrow>
   q \<in> set res \<or> (q \<in> set ps \<and> q < length h \<and> tagsForMatching (h ! q) = []) \<or> length h \<le> q"
proof (induction ps arbitrary: h res)
  case Nil
  then show ?case by simp
next
  case (Cons p ps)
  from Cons.prems(1) obtain r1 h1 where
    b: "tagFilter_body m d h p res = Inr (r1, h1)" and l: "tagFilter_loop m d h1 ps r1 = Inr (res', h')"
    by (rule tagFilter_loop_Cons_Inr)
  from tagFilter_body_grows [OF b] obtain new where h1: "h1 = h @ new" by auto
  from Cons.IH [OF l Cons.prems(2)]
  consider "q \<in> set r1" | "q \<in> set ps" "q < length h1" "tagsForMatching (h1 ! q) = []"
    | "length h1 \<le> q"
    by blast
  then show ?case
  proof cases
    case 1
    from tagFilter_body_out [OF b 1] show ?thesis by auto
  next
    case 2
    show ?thesis
    proof (cases "q < length h")
      case True
      with 2 h1 show ?thesis by (simp add: nth_append)
    next
      case False
      then show ?thesis by simp
    qed
  next
    case 3
    with h1 show ?thesis by simp
  qed
qed

lemma ArtifactFilter_Filter_grows:
  assumes "ArtifactFilter_Filter E f h artifacts = Inr (result, h')"
  shows "\<exists>new. h' = h @ new"
proof (cases f)
  case (artifactTypeFilter types)
  with assms show ?thesis
    by (auto simp: artifactTypeFilter_Filter_def split: if_splits sum.splits)
next
  case (artifactLabelFilter ls d)
  with assms show ?thesis
    by (auto simp: artifactLabelFilter_Filter_def split: if_splits sum.splits)
next
  case (artifactTaggedFilter tagged)
  with assms show ?thesis
    by (auto simp: artifactTaggedFilter_Filter_def split: sum.splits)
next
  case (artifactTagFilter pattern d)
  show ?thesis
  proof (cases "pattern = []")
    case True
    with assms artifactTagFilter show ?thesis by (simp add: artifactTagFilter_Filter_def)
  next
    case False
    with assms artifactTagFilter
    have "tagFilter_loop (Match E pattern) d h artifacts [] = Inr (result, h')"
      by (simp add: artifactTagFilter_Filter_def)
    from tagFilter_loop_grows [OF this] show ?thesis by auto
  qed
next
  case (artifactTagFilterRegex pattern d)
  show ?thesis
  proof (cases "pattern = []")
    case True
    with assms artifactTagFilterRegex show ?thesis by (simp add: artifactTagFilterRegex_Filter_def)
  next
    case False
    with assms artifactTagFilterRegex obtain re where
      "tagFilter_loop (\<lambda>tag. Inr (re tag)) d h artifacts [] = Inr (result, h')"
      by (cases "Compile E pattern") (auto simp: artifactTagFilterRegex_Filter_def)
    from tagFilter_loop_grows [OF this] show ?thesis by auto
  qed
next
  case (artifactLabelFilterRegex ls d)
  with assms show ?thesis
    by (auto simp: artifactLabelFilterRegex_Filter_def split: if_splits sum.splits)
qed

lemma ArtifactFilters_Filter_grows:
  "ArtifactFilters_Filter E fs h artifacts = Inr (result, h') \<Longrightarrow> \<exists>new. h' = h @ new"
proof (induction fs arbitrary: h artifacts)
  case Nil
  then show ?case by simp
next
  case (Cons f fs)
  from Cons.prems obtain a1 h1 where
    f: "ArtifactFilter_Filter E f h artifacts = Inr (a1, h1)" and
    r: "ArtifactFilters_Filter E fs h1 a1 = Inr (result, h')"
    by (cases "ArtifactFilter_Filter E f h artifacts") auto
  from ArtifactFilter_Filter_grows [OF f] Cons.IH [OF r] show ?case by auto
qed

lemma tag_filter_is_loop:
  assumes "f = artifactTagFilter pattern decoration \<or> f = artifactTagFilterRegex pattern decoration"
    and "ArtifactFilter_Filter E f h artifacts = Inr (result, h')"
    and "pattern \<noteq> []"
  shows "\<exists>m. tagFilter_loop m decoration h artifacts [] = Inr (result, h')"
proof -
  from assms(1) show ?thesis
  proof
    assume "f = artifactTagFilter pattern decoration"
    with assms(2,3) show ?thesis by (auto simp: artifactTagFilter_Filter_def)
  next
    assume "f = artifactTagFilterRegex pattern decoration"
    with assms(2,3) show ?thesis
      by (cases "Compile E pattern") (auto simp: artifactTagFilterRegex_Filter_def)
  qed
qed

text \<open>
  Claim C10: every record a tag rule (glob or regular expression) creates has the accessory flag
  unset and no parent tags, so what a tag rule matches it on, \<open>tagsForMatching\<close>, is its own
  tag list. When the pattern is not empty, a record of the caller's is in the result only if its
  tag source is empty: an accessory with parent tags survives only as such a new record. No later
  strategy of the pipeline changes a record, so the new record stays what it is for every tag
  rule that follows.
\<close>
theorem narrowed_record_is_no_accessory:
  assumes "f = artifactTagFilter pattern decoration \<or> f = artifactTagFilterRegex pattern decoration"
    and "ArtifactFilter_Filter E f h artifacts = Inr (result, h')"
  shows "(\<forall>q. length h \<le> q \<and> q < length h' \<longrightarrow>
            \<not> IsAcc (h' ! q) \<and> ParentTags (h' ! q) = [] \<and> tagsForMatching (h' ! q) = Tags (h' ! q))
       \<and> (pattern \<noteq> [] \<longrightarrow>
            (\<forall>q \<in> set result. q < length h \<longrightarrow> q \<in> set artifacts \<and> tagsForMatching (h ! q) = []))
       \<and> (\<forall>fs result2 h2 q.
            ArtifactFilters_Filter E fs h' result = Inr (result2, h2) \<longrightarrow> q < length h' \<longrightarrow>
            q < length h2 \<and> h2 ! q = h' ! q)"
proof (intro conjI allI impI ballI)
  fix q assume q: "length h \<le> q \<and> q < length h'"
  have "pattern \<noteq> []"
  proof
    assume "pattern = []"
    with assms have "h' = h"
      by (auto simp: artifactTagFilter_Filter_def artifactTagFilterRegex_Filter_def)
    with q show False by auto
  qed
  from tag_filter_is_loop [OF assms this] obtain m where
    "tagFilter_loop m decoration h artifacts [] = Inr (result, h')" ..
  from tagFilter_loop_new_records [OF this] q
  have "\<not> IsAcc (h' ! q) \<and> ParentTags (h' ! q) = []" by simp
  then show "\<not> IsAcc (h' ! q)" "ParentTags (h' ! q) = []" "tagsForMatching (h' ! q) = Tags (h' ! q)"
    by (simp_all add: tagsForMatching_def)
next
  fix q assume ne: "pattern \<noteq> []" and q: "q \<in> set result" "q < length h"
  from tag_filter_is_loop [OF assms ne] obtain m where
    "tagFilter_loop m decoration h artifacts [] = Inr (result, h')" ..
  from tagFilter_loop_out [OF this q(1)] q(2)
  show "q \<in> set artifacts" "tagsForMatching (h ! q) = []" by auto
next
  fix fs result2 h2 q
  assume run: "ArtifactFilters_Filter E fs h' result = Inr (result2, h2)" and q: "q < length h'"
  from ArtifactFilters_Filter_grows [OF run] obtain new where "h2 = h' @ new" ..
  with q show "q < length h2" "h2 ! q = h' ! q" by (simp_all add: nth_append)
qed

theorem narrowed_record_is_no_accessory_witness:
  "ArtifactFilter_Filter go (artifactTagFilter ''v*'' Matches)
     [\<lparr>Type = ''signature'', Digest = ''sha256:cc'', Labels = [], Tags = [''latest''],
       IsAcc = True, ParentTags = [''v1'']\<rparr>] [0]
   = Inr ([1],
     [\<lparr>Type = ''signature'', Digest = ''sha256:cc'', Labels = [], Tags = [''latest''],
       IsAcc = True, ParentTags = [''v1'']\<rparr>,
      \<lparr>Type = ''signature'', Digest = ''sha256:cc'', Labels = [], Tags = [''latest''],
       IsAcc = False, ParentTags = []\<rparr>])
   \<and> ArtifactFilters_Filter go [artifactTagFilter ''v*'' Matches]
     [\<lparr>Type = ''signature'', Digest = ''sha256:cc'', Labels = [], Tags = [''latest''],
       IsAcc = True, ParentTags = [''v1'']\<rparr>,
      \<lparr>Type = ''signature'', Digest = ''sha256:cc'', Labels = [], Tags = [''latest''],
       IsAcc = False, ParentTags = []\<rparr>] [1]
   = Inr ([],
     [\<lparr>Type = ''signature'', Digest = ''sha256:cc'', Labels = [], Tags = [''latest''],
       IsAcc = True, ParentTags = [''v1'']\<rparr>,
      \<lparr>Type = ''signature'', Digest = ''sha256:cc'', Labels = [], Tags = [''latest''],
       IsAcc = False, ParentTags = []\<rparr>])
   \<and> \<not> IsAcc ([\<lparr>Type = ''signature'', Digest = ''sha256:cc'', Labels = [], Tags = [''latest''],
       IsAcc = True, ParentTags = [''v1'']\<rparr>,
      \<lparr>Type = ''signature'', Digest = ''sha256:cc'', Labels = [], Tags = [''latest''],
       IsAcc = False, ParentTags = []\<rparr>] ! 1)
   \<and> tagsForMatching ([\<lparr>Type = ''signature'', Digest = ''sha256:cc'', Labels = [], Tags = [''latest''],
       IsAcc = True, ParentTags = [''v1'']\<rparr>,
      \<lparr>Type = ''signature'', Digest = ''sha256:cc'', Labels = [], Tags = [''latest''],
       IsAcc = False, ParentTags = []\<rparr>] ! 1) = [''latest'']"
proof -
  let ?a = "\<lparr>Type = ''signature'', Digest = ''sha256:cc'', Labels = [], Tags = [''latest''],
       IsAcc = True, ParentTags = [''v1'']\<rparr>"
  let ?b = "\<lparr>Type = ''signature'', Digest = ''sha256:cc'', Labels = [], Tags = [''latest''],
       IsAcc = False, ParentTags = []\<rparr>"
  have run: "ArtifactFilter_Filter go (artifactTagFilter ''v*'' Matches) [?a] [0] = Inr ([1], [?a, ?b])"
    by (simp add: tag_eval)
  have run2: "ArtifactFilters_Filter go [artifactTagFilter ''v*'' Matches] [?a, ?b] [1]
      = Inr ([], [?a, ?b])"
    by (simp add: tag_eval)
  from narrowed_record_is_no_accessory [OF _ run, of "''v*''" Matches]
  have "\<forall>q. length [?a] \<le> q \<and> q < length [?a, ?b] \<longrightarrow>
            \<not> IsAcc ([?a, ?b] ! q) \<and> ParentTags ([?a, ?b] ! q) = []
            \<and> tagsForMatching ([?a, ?b] ! q) = Tags ([?a, ?b] ! q)"
    by blast
  from this [rule_format, of 1]
  have "\<not> IsAcc ([?a, ?b] ! 1) \<and> tagsForMatching ([?a, ?b] ! 1) = Tags ([?a, ?b] ! 1)"
    by simp
  with run run2 show ?thesis by simp
qed

subsection \<open>The two decorations of one rule\<close>

lemma labelFilter_match_subset: "labelFilter_match L ls = (set ls \<subseteq> L)"
  by (induction ls) auto

lemma labelFilter_loop_filter:
  "\<forall>p \<in> set ps. p < length h \<Longrightarrow>
   labelFilter_loop ls d h ps res =
     Inr (res @ filter (\<lambda>p. decorated d (set ls \<subseteq> set (Labels (h ! p)))) ps)"
  by (induction ps arbitrary: res) (simp_all add: deref_def labelFilter_match_subset)

lemma tagFilter_body_source:
  assumes b: "tagFilter_body m d h p res = Inr (res', h')" and q: "q \<in> set res'"
  shows "q \<in> set res \<or>
         (q < length h' \<and> Type (h' ! q) = Type (h ! p) \<and> Digest (h' ! q) = Digest (h ! p) \<and>
          Labels (h' ! q) = Labels (h ! p))"
proof (cases "tagsForMatching (h ! p) = []")
  case True
  from tagFilter_body_untagged [OF b True] tagFilter_body_valid [OF b] q
  show ?thesis by (auto split: if_splits)
next
  case False
  from tagFilter_body_tagged [OF b False] q
  show ?thesis by (auto split: if_splits)
qed

lemma tagFilter_loop_source:
  "tagFilter_loop m d h ps res = Inr (res', h') \<Longrightarrow> \<forall>p \<in> set ps. p < length h \<Longrightarrow>
   q \<in> set res' \<Longrightarrow>
   q \<in> set res \<and> (q < length h \<longrightarrow> h' ! q = h ! q) \<or>
   (\<exists>p \<in> set ps. Type (h' ! q) = Type (h ! p) \<and> Digest (h' ! q) = Digest (h ! p) \<and>
          Labels (h' ! q) = Labels (h ! p))"
proof (induction ps arbitrary: h res)
  case Nil
  then show ?case by simp
next
  case (Cons p ps)
  from Cons.prems(1) obtain r1 h1 where
    b: "tagFilter_body m d h p res = Inr (r1, h1)" and l: "tagFilter_loop m d h1 ps r1 = Inr (res', h')"
    by (rule tagFilter_loop_Cons_Inr)
  from tagFilter_body_grows [OF b] obtain new where h1: "h1 = h @ new" by auto
  from tagFilter_loop_grows [OF l] obtain new' where h': "h' = h1 @ new'" by auto
  have valid: "\<forall>p \<in> set ps. p < length h1" using Cons.prems(2) h1 by auto
  have old: "h1 ! x = h ! x" if "x < length h" for x using that h1 by (simp add: nth_append)
  from Cons.IH [OF l valid Cons.prems(3)]
  consider "q \<in> set r1" "q < length h1 \<longrightarrow> h' ! q = h1 ! q"
    | p' where "p' \<in> set ps" "Type (h' ! q) = Type (h1 ! p')" "Digest (h' ! q) = Digest (h1 ! p')"
        "Labels (h' ! q) = Labels (h1 ! p')"
    by blast
  then show ?case
  proof cases
    case 1
    from tagFilter_body_source [OF b 1(1)]
    show ?thesis
    proof
      assume "q \<in> set res"
      with 1(2) h1 old show ?thesis by auto
    next
      assume "q < length h1 \<and> Type (h1 ! q) = Type (h ! p) \<and> Digest (h1 ! q) = Digest (h ! p) \<and>
          Labels (h1 ! q) = Labels (h ! p)"
      with 1(2) show ?thesis by auto
    qed
  next
    case 2
    with Cons.prems(2) old [of p'] show ?thesis by auto
  qed
qed

lemma tagFilter_loop_covered:
  assumes runM: "tagFilter_loop m d h artifacts [] = Inr (M, hM)"
    and runX: "tagFilter_loop m Excludes h artifacts [] = Inr (X, hX)"
    and d: "d \<noteq> Excludes" and p: "p \<in> set artifacts" "p < length h"
  shows "(\<exists>q \<in> set M. Type (hM ! q) = Type (h ! p) \<and> Digest (hM ! q) = Digest (h ! p) \<and>
            Labels (hM ! q) = Labels (h ! p))
       \<or> (\<exists>q \<in> set X. Type (hX ! q) = Type (h ! p) \<and> Digest (hX ! q) = Digest (h ! p) \<and>
            Labels (hX ! q) = Labels (h ! p))"
proof -
  from p(1) obtain xs ys where split: "artifacts = xs @ p # ys" by (auto simp: in_set_conv_decomp)
  note rM = runM [unfolded split] and rX = runX [unfolded split]
  have dec: "\<And>b. decorated d b = b" "\<And>b. decorated Excludes b = (\<not> b)"
    using d by (simp_all add: decorated_def)
  show ?thesis
  proof (cases "tagsForMatching (h ! p) = []")
    case True
    show ?thesis
    proof (cases "m [] = Inr True")
      case yes: True
      then have "decorated d (m [] = Inr True)" by (simp add: dec)
      from tagFilter_loop_kept_at [OF rM p(2) True this] show ?thesis by auto
    next
      case no: False
      then have "decorated Excludes (m [] = Inr True)" by (simp add: dec)
      from tagFilter_loop_kept_at [OF rX p(2) True this] show ?thesis by auto
    qed
  next
    case False
    then obtain t ts where src: "tagsForMatching (h ! p) = t # ts"
      by (cases "tagsForMatching (h ! p)") auto
    show ?thesis
    proof (cases "m t = Inr True")
      case yes: True
      then have "filter (\<lambda>t. decorated d (m t = Inr True)) (tagsForMatching (h ! p)) \<noteq> []"
        by (simp add: src dec)
      from tagFilter_loop_narrowed_at [OF rM p(2) False this] show ?thesis by auto
    next
      case no: False
      then have "filter (\<lambda>t. decorated Excludes (m t = Inr True)) (tagsForMatching (h ! p)) \<noteq> []"
        by (simp add: src dec)
      from tagFilter_loop_narrowed_at [OF rX p(2) False this] show ?thesis by auto
    qed
  qed
qed

lemma tagFilter_loop_union:
  assumes runM: "tagFilter_loop m d h artifacts [] = Inr (M, hM)"
    and runX: "tagFilter_loop m Excludes h artifacts [] = Inr (X, hX)"
    and d: "d \<noteq> Excludes" and valid: "\<forall>p \<in> set artifacts. p < length h"
  shows "(\<lambda>q. (Type (hM ! q), Digest (hM ! q), Labels (hM ! q))) ` set M
         \<union> (\<lambda>q. (Type (hX ! q), Digest (hX ! q), Labels (hX ! q))) ` set X
         = (\<lambda>p. (Type (h ! p), Digest (h ! p), Labels (h ! p))) ` set artifacts"
proof (intro equalityI subsetI)
  fix x
  assume "x \<in> (\<lambda>q. (Type (hM ! q), Digest (hM ! q), Labels (hM ! q))) ` set M
         \<union> (\<lambda>q. (Type (hX ! q), Digest (hX ! q), Labels (hX ! q))) ` set X"
  then consider q where "q \<in> set M" "x = (Type (hM ! q), Digest (hM ! q), Labels (hM ! q))"
    | q where "q \<in> set X" "x = (Type (hX ! q), Digest (hX ! q), Labels (hX ! q))"
    by auto
  then show "x \<in> (\<lambda>p. (Type (h ! p), Digest (h ! p), Labels (h ! p))) ` set artifacts"
  proof cases
    case 1
    from tagFilter_loop_source [OF runM valid 1(1)] 1(2) show ?thesis by auto
  next
    case 2
    from tagFilter_loop_source [OF runX valid 2(1)] 2(2) show ?thesis by auto
  qed
next
  fix x
  assume "x \<in> (\<lambda>p. (Type (h ! p), Digest (h ! p), Labels (h ! p))) ` set artifacts"
  then obtain p where p: "p \<in> set artifacts" and x: "x = (Type (h ! p), Digest (h ! p), Labels (h ! p))"
    by auto
  from p valid have "p < length h" by simp
  from tagFilter_loop_covered [OF runM runX d p this]
  show "x \<in> (\<lambda>q. (Type (hM ! q), Digest (hM ! q), Labels (hM ! q))) ` set M
         \<union> (\<lambda>q. (Type (hX ! q), Digest (hX ! q), Labels (hX ! q))) ` set X"
  proof
    assume "\<exists>q \<in> set M. Type (hM ! q) = Type (h ! p) \<and> Digest (hM ! q) = Digest (h ! p) \<and>
            Labels (hM ! q) = Labels (h ! p)"
    then obtain q where "q \<in> set M" "x = (Type (hM ! q), Digest (hM ! q), Labels (hM ! q))"
      using x by auto
    then show ?thesis by blast
  next
    assume "\<exists>q \<in> set X. Type (hX ! q) = Type (h ! p) \<and> Digest (hX ! q) = Digest (h ! p) \<and>
            Labels (hX ! q) = Labels (h ! p)"
    then obtain q where "q \<in> set X" "x = (Type (hX ! q), Digest (hX ! q), Labels (hX ! q))"
      using x by auto
    then show ?thesis by blast
  qed
qed

lemma labelRegex_loop_filter:
  "labelRegex_loop E ls d h artifacts ps res = Inr res' \<Longrightarrow>
   res' = res @ filter (\<lambda>p. decorated d (labelRegex_outer E h artifacts p ls = Inr True)) ps"
proof (induction ps arbitrary: res)
  case Nil
  then show ?case by simp
next
  case (Cons p ps)
  show ?case
  proof (cases "labelRegex_outer E h artifacts p ls")
    case (Inl e)
    with Cons.prems show ?thesis by simp
  next
    case (Inr b)
    with Cons.prems
    have "labelRegex_loop E ls d h artifacts ps (if decorated d b then res @ [p] else res) = Inr res'"
      by simp
    from Cons.IH [OF this] Inr show ?thesis by (cases b) auto
  qed
qed

lemma tagFilter_loop_single: "tagFilter_loop m d h [p] [] = tagFilter_body m d h p []"
proof (cases "tagFilter_body m d h p []")
  case (Inl e)
  then show ?thesis by simp
next
  case (Inr r)
  then show ?thesis by (cases r) simp
qed

lemma tagFilter_loop_split:
  assumes "tagFilter_loop m d h (xs @ p # ys) [] = Inr (result, h')"
  shows "\<exists>r1 h1 out h2 r2 new.
           tagFilter_loop m d h xs [] = Inr (r1, h1) \<and> h1 = h @ new \<and>
           tagFilter_body m d h1 p [] = Inr (out, h2) \<and>
           tagFilter_loop m d h2 ys [] = Inr (r2, h') \<and>
           result = r1 @ out @ r2"
proof -
  have "tagFilter_loop m d h (xs @ p # ys) [] =
     (case tagFilter_loop m d h xs [] of
        Inl e \<Rightarrow> Inl e
      | Inr (r, h1) \<Rightarrow> tagFilter_loop m d h1 (p # ys) r)"
    by (rule tagFilter_loop_append)
  with assms obtain r1 h1 where
    x: "tagFilter_loop m d h xs [] = Inr (r1, h1)" and
    rest: "tagFilter_loop m d h1 (p # ys) r1 = Inr (result, h')"
    by (cases "tagFilter_loop m d h xs []") auto
  from rest obtain r2' h2 where
    b: "tagFilter_body m d h1 p r1 = Inr (r2', h2)" and
    y: "tagFilter_loop m d h2 ys r2' = Inr (result, h')"
    by (rule tagFilter_loop_Cons_Inr)
  from b obtain out where o: "tagFilter_body m d h1 p [] = Inr (out, h2)" and r2': "r2' = r1 @ out"
    by (cases "tagFilter_body m d h1 p []") (auto simp: tagFilter_body_acc [of m d h1 p r1])
  from tagFilter_loop_grows [OF x] obtain new where n: "h1 = h @ new" by auto
  from y obtain r2 where y': "tagFilter_loop m d h2 ys [] = Inr (r2, h')" and r: "result = r2' @ r2"
    by (cases "tagFilter_loop m d h2 ys []") (auto simp: tagFilter_loop_acc [of m d h2 ys r2'])
  from x n o y' r r2' show ?thesis by auto
qed

lemma tagFilter_body_exact:
  assumes b: "tagFilter_body m d h p [] = Inr (out, h')" and g: "\<forall>t. (m t = Inr True) = g t"
  shows "tagsForMatching (h ! p) = [] \<Longrightarrow>
           h' = h \<and> out = (if decorated d (g []) then [p] else [])"
    and "tagsForMatching (h ! p) \<noteq> [] \<Longrightarrow>
           out = (if filter (\<lambda>t. decorated d (g t)) (tagsForMatching (h ! p)) = [] then []
                  else [length h]) \<and>
           h' = (if filter (\<lambda>t. decorated d (g t)) (tagsForMatching (h ! p)) = [] then h
                 else h @ [\<lparr>Type = Type (h ! p), Digest = Digest (h ! p), Labels = Labels (h ! p),
                             Tags = (if IsAcc (h ! p) then Tags (h ! p)
                                     else filter (\<lambda>t. decorated d (g t))
                                            (tagsForMatching (h ! p))),
                             IsAcc = False, ParentTags = []\<rparr>])"
proof -
  have eq: "(\<lambda>t. decorated d (m t = Inr True)) = (\<lambda>t. decorated d (g t))"
    using g by simp
  {
    assume u: "tagsForMatching (h ! p) = []"
    from tagFilter_body_untagged [OF b u] obtain c where
      h: "h' = h" and c: "m [] = Inr c" and o: "out = (if decorated d c then [p] else [])"
      by auto
    from g have "g [] = (m [] = Inr True)" by simp
    with c have "c = g []" by simp
    with h o show "h' = h \<and> out = (if decorated d (g []) then [p] else [])" by simp
  }
  {
    assume t: "tagsForMatching (h ! p) \<noteq> []"
    from tagFilter_body_tagged [OF b t, unfolded eq]
    show "out = (if filter (\<lambda>t. decorated d (g t)) (tagsForMatching (h ! p)) = [] then []
                  else [length h]) \<and>
           h' = (if filter (\<lambda>t. decorated d (g t)) (tagsForMatching (h ! p)) = [] then h
                 else h @ [\<lparr>Type = Type (h ! p), Digest = Digest (h ! p), Labels = Labels (h ! p),
                             Tags = (if IsAcc (h ! p) then Tags (h ! p)
                                     else filter (\<lambda>t. decorated d (g t))
                                            (tagsForMatching (h ! p))),
                             IsAcc = False, ParentTags = []\<rparr>])"
      by (simp split: if_splits)
  }
qed

lemma tagFilter_loop_both_at:
  fixes h :: store and p :: ptr and g :: "string \<Rightarrow> bool"
  defines "src \<equiv> tagsForMatching (h ! p)"
  defines "rec \<equiv> \<lambda>ts. \<lparr>Type = Type (h ! p), Digest = Digest (h ! p), Labels = Labels (h ! p),
                         Tags = (if IsAcc (h ! p) then Tags (h ! p) else ts),
                         IsAcc = False, ParentTags = []\<rparr>"
  assumes rM: "tagFilter_loop m d h (xs @ p # ys) [] = Inr (M, hM)"
    and rX: "tagFilter_loop m Excludes h (xs @ p # ys) [] = Inr (X, hX)"
    and d: "d \<noteq> Excludes" and p: "p < length h"
    and g: "\<forall>t. (m t = Inr True) = g t"
  shows "\<exists>M1 h1 em h2 M2 X1 k1 ex k2 X2.
     tagFilter_loop m d h xs [] = Inr (M1, h1) \<and>
     tagFilter_loop m d h1 [p] [] = Inr (em, h2) \<and>
     tagFilter_loop m d h2 ys [] = Inr (M2, hM) \<and> M = M1 @ em @ M2 \<and>
     tagFilter_loop m Excludes h xs [] = Inr (X1, k1) \<and>
     tagFilter_loop m Excludes k1 [p] [] = Inr (ex, k2) \<and>
     tagFilter_loop m Excludes k2 ys [] = Inr (X2, hX) \<and> X = X1 @ ex @ X2 \<and>
     (em \<noteq> [] \<or> ex \<noteq> []) \<and>
     ((em \<noteq> [] \<and> ex \<noteq> []) = ((\<exists>t \<in> set src. g t) \<and> (\<exists>t \<in> set src. \<not> g t))) \<and>
     (src = [] \<longrightarrow> h2 = h1 \<and> k2 = k1 \<and> em = (if g [] then [p] else []) \<and>
        ex = (if g [] then [] else [p])) \<and>
     (src \<noteq> [] \<longrightarrow>
        em = (if filter g src = [] then [] else [length h1]) \<and>
        h2 = (if filter g src = [] then h1 else h1 @ [rec (filter g src)]) \<and>
        ex = (if filter (\<lambda>t. \<not> g t) src = [] then [] else [length k1]) \<and>
        k2 = (if filter (\<lambda>t. \<not> g t) src = [] then k1
              else k1 @ [rec (filter (\<lambda>t. \<not> g t) src)]))"
proof -
  from tagFilter_loop_split [OF rM] obtain M1 h1 em h2 M2 new where
    m1: "tagFilter_loop m d h xs [] = Inr (M1, h1)" and h1: "h1 = h @ new" and
    mb: "tagFilter_body m d h1 p [] = Inr (em, h2)" and
    m2: "tagFilter_loop m d h2 ys [] = Inr (M2, hM)" and M: "M = M1 @ em @ M2"
    by blast
  from tagFilter_loop_split [OF rX] obtain X1 k1 ex k2 X2 new' where
    x1: "tagFilter_loop m Excludes h xs [] = Inr (X1, k1)" and k1: "k1 = h @ new'" and
    xb: "tagFilter_body m Excludes k1 p [] = Inr (ex, k2)" and
    x2: "tagFilter_loop m Excludes k2 ys [] = Inr (X2, hX)" and X: "X = X1 @ ex @ X2"
    by blast
  have same: "h1 ! p = h ! p" "k1 ! p = h ! p"
    using p h1 k1 by (simp_all add: nth_append)
  have dec: "\<And>b. decorated d b = b" "\<And>b. decorated Excludes b = (\<not> b)"
    using d by (simp_all add: decorated_def)
  have untagged: "h2 = h1 \<and> k2 = k1 \<and> em = (if g [] then [p] else []) \<and>
        ex = (if g [] then [] else [p])" if "src = []"
    using tagFilter_body_exact(1) [OF mb g] tagFilter_body_exact(1) [OF xb g] that
    by (simp add: same dec src_def)
  have tagged: "em = (if filter g src = [] then [] else [length h1]) \<and>
        h2 = (if filter g src = [] then h1 else h1 @ [rec (filter g src)]) \<and>
        ex = (if filter (\<lambda>t. \<not> g t) src = [] then [] else [length k1]) \<and>
        k2 = (if filter (\<lambda>t. \<not> g t) src = [] then k1
              else k1 @ [rec (filter (\<lambda>t. \<not> g t) src)])" if "src \<noteq> []"
    using tagFilter_body_exact(2) [OF mb g] tagFilter_body_exact(2) [OF xb g] that
    by (simp add: same dec src_def rec_def)
  have some: "em \<noteq> [] \<or> ex \<noteq> []"
  proof (cases "src = []")
    case True
    with untagged show ?thesis by simp
  next
    case False
    then obtain t where "t \<in> set src" by (cases src) auto
    then have "filter g src \<noteq> [] \<or> filter (\<lambda>t. \<not> g t) src \<noteq> []"
      by (auto simp: filter_empty_conv)
    with tagged [OF False] show ?thesis by auto
  qed
  have both: "(em \<noteq> [] \<and> ex \<noteq> []) = ((\<exists>t \<in> set src. g t) \<and> (\<exists>t \<in> set src. \<not> g t))"
  proof (cases "src = []")
    case True
    with untagged show ?thesis by simp
  next
    case False
    from tagged [OF False] show ?thesis by (auto simp: filter_empty_conv)
  qed
  from m1 mb m2 M x1 xb x2 X some both untagged tagged show ?thesis
    unfolding tagFilter_loop_single [symmetric] by blast
qed

lemma tag_rule_is_loop:
  assumes "rule = artifactTagFilter pattern \<and> g = (\<lambda>t. Match E pattern t = Inr True)
           \<or> rule = artifactTagFilterRegex pattern \<and> Compile E pattern = Inr g"
    and "pattern \<noteq> []"
  shows "\<exists>m. (\<forall>d h l. ArtifactFilter_Filter E (rule d) h l = tagFilter_loop m d h l [])
             \<and> (\<forall>t. (m t = Inr True) = g t)"
proof -
  from assms(1) show ?thesis
  proof
    assume a: "rule = artifactTagFilter pattern \<and> g = (\<lambda>t. Match E pattern t = Inr True)"
    have "\<forall>d h l. ArtifactFilter_Filter E (rule d) h l = tagFilter_loop (Match E pattern) d h l []"
      using a assms(2) by (simp add: artifactTagFilter_Filter_def)
    moreover have "\<forall>t. (Match E pattern t = Inr True) = g t" using a by simp
    ultimately show ?thesis by (intro exI [of _ "Match E pattern"] conjI)
  next
    assume a: "rule = artifactTagFilterRegex pattern \<and> Compile E pattern = Inr g"
    have "\<forall>d h l. ArtifactFilter_Filter E (rule d) h l
        = tagFilter_loop (\<lambda>tag. Inr (g tag)) d h l []"
      using a assms(2) by (simp add: artifactTagFilterRegex_Filter_def)
    moreover have "\<forall>t. ((\<lambda>tag. Inr (g tag) :: error + bool) t = Inr True) = g t" by simp
    ultimately show ?thesis by (intro exI [of _ "\<lambda>tag. Inr (g tag)"] conjI)
  qed
qed

lemma label_partition:
  assumes "ls \<noteq> []" and "\<forall>a \<in> set artifacts. a < length h" and "decoration \<noteq> Excludes"
  shows "\<exists>M X. artifactLabelFilter_Filter ls decoration h artifacts = Inr (M, h) \<and>
                 artifactLabelFilter_Filter ls Excludes h artifacts = Inr (X, h) \<and>
                 M = filter (\<lambda>a. set ls \<subseteq> set (Labels (h ! a))) artifacts \<and>
                 X = filter (\<lambda>a. \<not> set ls \<subseteq> set (Labels (h ! a))) artifacts \<and>
                 set M \<inter> set X = {} \<and> set M \<union> set X = set artifacts"
proof -
  have m: "artifactLabelFilter_Filter ls decoration h artifacts
      = Inr (filter (\<lambda>a. set ls \<subseteq> set (Labels (h ! a))) artifacts, h)"
    using assms by (simp add: artifactLabelFilter_Filter_def labelFilter_loop_filter decorated_def)
  have x: "artifactLabelFilter_Filter ls Excludes h artifacts
      = Inr (filter (\<lambda>a. \<not> set ls \<subseteq> set (Labels (h ! a))) artifacts, h)"
    using assms by (simp add: artifactLabelFilter_Filter_def labelFilter_loop_filter decorated_def)
  have "set (filter (\<lambda>a. set ls \<subseteq> set (Labels (h ! a))) artifacts)
        \<inter> set (filter (\<lambda>a. \<not> set ls \<subseteq> set (Labels (h ! a))) artifacts) = {}"
    "set (filter (\<lambda>a. set ls \<subseteq> set (Labels (h ! a))) artifacts)
        \<union> set (filter (\<lambda>a. \<not> set ls \<subseteq> set (Labels (h ! a))) artifacts) = set artifacts"
    by auto
  with m x show ?thesis by blast
qed

lemma labelRegex_partition:
  assumes ne: "ls \<noteq> []" and d: "decoration \<noteq> Excludes"
    and m: "artifactLabelFilterRegex_Filter E ls decoration h artifacts = Inr (Ml, hMl)"
    and x: "artifactLabelFilterRegex_Filter E ls Excludes h artifacts = Inr (Xl, hXl)"
  shows "hMl = h \<and> hXl = h \<and>
          Ml = filter (\<lambda>a. labelRegex_outer E h artifacts a ls = Inr True) artifacts \<and>
          Xl = filter (\<lambda>a. labelRegex_outer E h artifacts a ls \<noteq> Inr True) artifacts \<and>
          set Ml \<inter> set Xl = {} \<and> set Ml \<union> set Xl = set artifacts"
proof -
  from ne m have lm: "labelRegex_loop E ls decoration h artifacts artifacts [] = Inr Ml \<and> hMl = h"
    by (cases "labelRegex_loop E ls decoration h artifacts artifacts []")
       (simp_all add: artifactLabelFilterRegex_Filter_def)
  from ne x have lx: "labelRegex_loop E ls Excludes h artifacts artifacts [] = Inr Xl \<and> hXl = h"
    by (cases "labelRegex_loop E ls Excludes h artifacts artifacts []")
       (simp_all add: artifactLabelFilterRegex_Filter_def)
  from labelRegex_loop_filter [OF lm [THEN conjunct1]] d
  have M: "Ml = filter (\<lambda>a. labelRegex_outer E h artifacts a ls = Inr True) artifacts"
    by (simp add: decorated_def)
  from labelRegex_loop_filter [OF lx [THEN conjunct1]]
  have X: "Xl = filter (\<lambda>a. labelRegex_outer E h artifacts a ls \<noteq> Inr True) artifacts"
    by (simp add: decorated_def)
  have "set Ml \<inter> set Xl = {}" "set Ml \<union> set Xl = set artifacts"
    unfolding M X by auto
  with lm lx M X show ?thesis by blast
qed

lemma tag_rule_both_at:
  fixes h :: store and p :: ptr and g :: "string \<Rightarrow> bool"
  defines "src \<equiv> tagsForMatching (h ! p)"
  defines "rec \<equiv> \<lambda>ts. \<lparr>Type = Type (h ! p), Digest = Digest (h ! p), Labels = Labels (h ! p),
                         Tags = (if IsAcc (h ! p) then Tags (h ! p) else ts),
                         IsAcc = False, ParentTags = []\<rparr>"
  assumes ne: "pattern \<noteq> []"
    and r: "rule = artifactTagFilter pattern \<and> g = (\<lambda>t. Match E pattern t = Inr True)
           \<or> rule = artifactTagFilterRegex pattern \<and> Compile E pattern = Inr g"
    and d: "decoration \<noteq> Excludes"
    and p: "p < length h"
    and m: "ArtifactFilter_Filter E (rule decoration) h (xs @ p # ys) = Inr (Mt, hMt)"
    and x: "ArtifactFilter_Filter E (rule Excludes) h (xs @ p # ys) = Inr (Xt, hXt)"
  shows "\<exists>M1 h1 em h2 M2 X1 k1 ex k2 X2.
             ArtifactFilter_Filter E (rule decoration) h xs = Inr (M1, h1) \<and>
             ArtifactFilter_Filter E (rule decoration) h1 [p] = Inr (em, h2) \<and>
             ArtifactFilter_Filter E (rule decoration) h2 ys = Inr (M2, hMt) \<and>
             Mt = M1 @ em @ M2 \<and>
             ArtifactFilter_Filter E (rule Excludes) h xs = Inr (X1, k1) \<and>
             ArtifactFilter_Filter E (rule Excludes) k1 [p] = Inr (ex, k2) \<and>
             ArtifactFilter_Filter E (rule Excludes) k2 ys = Inr (X2, hXt) \<and>
             Xt = X1 @ ex @ X2 \<and>
             (em \<noteq> [] \<or> ex \<noteq> []) \<and>
             ((em \<noteq> [] \<and> ex \<noteq> []) = ((\<exists>t \<in> set src. g t) \<and> (\<exists>t \<in> set src. \<not> g t))) \<and>
             (src = [] \<longrightarrow> h2 = h1 \<and> k2 = k1 \<and> em = (if g [] then [p] else []) \<and>
                ex = (if g [] then [] else [p])) \<and>
             (src \<noteq> [] \<longrightarrow>
                em = (if filter g src = [] then [] else [length h1]) \<and>
                h2 = (if filter g src = [] then h1 else h1 @ [rec (filter g src)]) \<and>
                ex = (if filter (\<lambda>t. \<not> g t) src = [] then [] else [length k1]) \<and>
                k2 = (if filter (\<lambda>t. \<not> g t) src = [] then k1
                      else k1 @ [rec (filter (\<lambda>t. \<not> g t) src)]))"
proof -
  from tag_rule_is_loop [OF r ne] obtain m' where
    both: "(\<forall>d h l. ArtifactFilter_Filter E (rule d) h l = tagFilter_loop m' d h l [])
           \<and> (\<forall>t. (m' t = Inr True) = g t)" ..
  from both have loop: "ArtifactFilter_Filter E (rule d) h l = tagFilter_loop m' d h l []"
    for d h l by simp
  from both have g: "\<forall>t. (m' t = Inr True) = g t" by (rule conjunct2)
  have rm: "tagFilter_loop m' decoration h (xs @ p # ys) [] = Inr (Mt, hMt)"
    using m by (simp only: loop)
  have rx: "tagFilter_loop m' Excludes h (xs @ p # ys) [] = Inr (Xt, hXt)"
    using x by (simp only: loop)
  show ?thesis
    unfolding loop src_def rec_def
    by (rule tagFilter_loop_both_at [OF rm rx d p g])
qed

lemma tag_rule_union:
  assumes ne: "pattern \<noteq> []"
    and r: "rule = artifactTagFilter pattern \<and> g = (\<lambda>t. Match E pattern t = Inr True)
           \<or> rule = artifactTagFilterRegex pattern \<and> Compile E pattern = Inr g"
    and d: "decoration \<noteq> Excludes"
    and v: "\<forall>a \<in> set artifacts. a < length h"
    and m: "ArtifactFilter_Filter E (rule decoration) h artifacts = Inr (Mu, hMu)"
    and x: "ArtifactFilter_Filter E (rule Excludes) h artifacts = Inr (Xu, hXu)"
  shows "(\<lambda>q. (Type (hMu ! q), Digest (hMu ! q), Labels (hMu ! q))) ` set Mu
          \<union> (\<lambda>q. (Type (hXu ! q), Digest (hXu ! q), Labels (hXu ! q))) ` set Xu
          = (\<lambda>a. (Type (h ! a), Digest (h ! a), Labels (h ! a))) ` set artifacts"
proof -
  from tag_rule_is_loop [OF r ne] obtain m' where
    both: "(\<forall>d h l. ArtifactFilter_Filter E (rule d) h l = tagFilter_loop m' d h l [])
           \<and> (\<forall>t. (m' t = Inr True) = g t)" ..
  from both have loop: "ArtifactFilter_Filter E (rule d) h l = tagFilter_loop m' d h l []"
    for d h l by simp
  have rm: "tagFilter_loop m' decoration h artifacts [] = Inr (Mu, hMu)"
    using m by (simp only: loop)
  have rx: "tagFilter_loop m' Excludes h artifacts [] = Inr (Xu, hXu)"
    using x by (simp only: loop)
  show ?thesis by (rule tagFilter_loop_union [OF rm rx d v])
qed

text \<open>
  Claim C4 says that the results of a rule under Matches and under Excludes are disjoint. A Label
  rule with an empty list returns the whole input under both decorations, and a Tag rule returns
  an artifact that has a matching and a non-matching tag under both, with the matching tags
  under Matches and the others under Excludes.
\<close>

theorem matches_and_excludes_overlap:
  "artifactLabelFilter_Filter [] Matches
     [\<lparr>Type = ''image'', Digest = ''sha256:aa'', Labels = [''stable''],
       Tags = [''v1'', ''latest''], IsAcc = False, ParentTags = []\<rparr>] [0]
   = Inr ([0],
     [\<lparr>Type = ''image'', Digest = ''sha256:aa'', Labels = [''stable''],
       Tags = [''v1'', ''latest''], IsAcc = False, ParentTags = []\<rparr>])
   \<and> artifactLabelFilter_Filter [] Excludes
     [\<lparr>Type = ''image'', Digest = ''sha256:aa'', Labels = [''stable''],
       Tags = [''v1'', ''latest''], IsAcc = False, ParentTags = []\<rparr>] [0]
   = Inr ([0],
     [\<lparr>Type = ''image'', Digest = ''sha256:aa'', Labels = [''stable''],
       Tags = [''v1'', ''latest''], IsAcc = False, ParentTags = []\<rparr>])
   \<and> artifactTagFilter_Filter go ''v*'' Matches
     [\<lparr>Type = ''image'', Digest = ''sha256:aa'', Labels = [''stable''],
       Tags = [''v1'', ''latest''], IsAcc = False, ParentTags = []\<rparr>] [0]
   = Inr ([1],
     [\<lparr>Type = ''image'', Digest = ''sha256:aa'', Labels = [''stable''],
       Tags = [''v1'', ''latest''], IsAcc = False, ParentTags = []\<rparr>,
      \<lparr>Type = ''image'', Digest = ''sha256:aa'', Labels = [''stable''],
       Tags = [''v1''], IsAcc = False, ParentTags = []\<rparr>])
   \<and> artifactTagFilter_Filter go ''v*'' Excludes
     [\<lparr>Type = ''image'', Digest = ''sha256:aa'', Labels = [''stable''],
       Tags = [''v1'', ''latest''], IsAcc = False, ParentTags = []\<rparr>] [0]
   = Inr ([1],
     [\<lparr>Type = ''image'', Digest = ''sha256:aa'', Labels = [''stable''],
       Tags = [''v1'', ''latest''], IsAcc = False, ParentTags = []\<rparr>,
      \<lparr>Type = ''image'', Digest = ''sha256:aa'', Labels = [''stable''],
       Tags = [''latest''], IsAcc = False, ParentTags = []\<rparr>])"
  by (simp add: artifactLabelFilter_Filter_def tag_eval)

text \<open>
  Claim C4, as far as the code keeps it. In what follows \<open>decoration\<close> is any decoration but
  Excludes, and the same rule is run on the same list and store under \<open>decoration\<close> and under
  Excludes.
  \<^item> A Label rule with a non-empty list, on a list of addresses of the store, returns under
    Matches the artifacts that carry every label of the list and under Excludes the others: the
    two results are disjoint and together they are the input. The results of a LabelRegex rule
    with a non-empty list are disjoint and together the input whenever both runs return.
  \<^item> A Tag or TagRegex rule with a non-empty pattern, when both runs return: the output of each
    run is what the artifacts before \<open>p\<close> give, then what \<open>p\<close> gives (\<open>em\<close> under Matches,
    \<open>ex\<close> under Excludes), then what the artifacts after \<open>p\<close> give. The artifact \<open>p\<close> survives
    under at least one decoration; it survives under both exactly when its tag source (the parent
    tags of an accessory, the own tags otherwise) has a tag that matches and one that does not.
    Without a tag source \<open>p\<close> itself is returned, under Matches if the empty string matches and
    under Excludes if not; with one, a new record is returned under each decoration that keeps a
    tag, carrying the matching tags under Matches and the others under Excludes, or, for an
    accessory, its own tags under both.
  \<^item> On a list of addresses of the store, the records of the two results of a Tag or TagRegex
    rule, taken together, are by type, digest and labels the records of the input.
  \<^item> A rule with an empty pattern or an empty list returns the input under every decoration.
\<close>

theorem matches_excludes_of_one_rule:
  fixes h :: store and p :: ptr and g :: "string \<Rightarrow> bool"
  defines "src \<equiv> tagsForMatching (h ! p)"
  defines "rec \<equiv> \<lambda>ts. \<lparr>Type = Type (h ! p), Digest = Digest (h ! p), Labels = Labels (h ! p),
                         Tags = (if IsAcc (h ! p) then Tags (h ! p) else ts),
                         IsAcc = False, ParentTags = []\<rparr>"
  assumes d: "decoration \<noteq> Excludes"
  shows "(ls \<noteq> [] \<longrightarrow> (\<forall>a \<in> set artifacts. a < length h) \<longrightarrow>
          (\<exists>M X. artifactLabelFilter_Filter ls decoration h artifacts = Inr (M, h) \<and>
                 artifactLabelFilter_Filter ls Excludes h artifacts = Inr (X, h) \<and>
                 M = filter (\<lambda>a. set ls \<subseteq> set (Labels (h ! a))) artifacts \<and>
                 X = filter (\<lambda>a. \<not> set ls \<subseteq> set (Labels (h ! a))) artifacts \<and>
                 set M \<inter> set X = {} \<and> set M \<union> set X = set artifacts))
       \<and> (ls \<noteq> [] \<longrightarrow>
          artifactLabelFilterRegex_Filter E ls decoration h artifacts = Inr (Ml, hMl) \<longrightarrow>
          artifactLabelFilterRegex_Filter E ls Excludes h artifacts = Inr (Xl, hXl) \<longrightarrow>
          hMl = h \<and> hXl = h \<and>
          Ml = filter (\<lambda>a. labelRegex_outer E h artifacts a ls = Inr True) artifacts \<and>
          Xl = filter (\<lambda>a. labelRegex_outer E h artifacts a ls \<noteq> Inr True) artifacts \<and>
          set Ml \<inter> set Xl = {} \<and> set Ml \<union> set Xl = set artifacts)
       \<and> (pattern \<noteq> [] \<longrightarrow>
          (rule = artifactTagFilter pattern \<and> g = (\<lambda>t. Match E pattern t = Inr True)
           \<or> rule = artifactTagFilterRegex pattern \<and> Compile E pattern = Inr g) \<longrightarrow>
          p < length h \<longrightarrow>
          ArtifactFilter_Filter E (rule decoration) h (xs @ p # ys) = Inr (Mt, hMt) \<longrightarrow>
          ArtifactFilter_Filter E (rule Excludes) h (xs @ p # ys) = Inr (Xt, hXt) \<longrightarrow>
          (\<exists>M1 h1 em h2 M2 X1 k1 ex k2 X2.
             ArtifactFilter_Filter E (rule decoration) h xs = Inr (M1, h1) \<and>
             ArtifactFilter_Filter E (rule decoration) h1 [p] = Inr (em, h2) \<and>
             ArtifactFilter_Filter E (rule decoration) h2 ys = Inr (M2, hMt) \<and>
             Mt = M1 @ em @ M2 \<and>
             ArtifactFilter_Filter E (rule Excludes) h xs = Inr (X1, k1) \<and>
             ArtifactFilter_Filter E (rule Excludes) k1 [p] = Inr (ex, k2) \<and>
             ArtifactFilter_Filter E (rule Excludes) k2 ys = Inr (X2, hXt) \<and>
             Xt = X1 @ ex @ X2 \<and>
             (em \<noteq> [] \<or> ex \<noteq> []) \<and>
             ((em \<noteq> [] \<and> ex \<noteq> []) = ((\<exists>t \<in> set src. g t) \<and> (\<exists>t \<in> set src. \<not> g t))) \<and>
             (src = [] \<longrightarrow> h2 = h1 \<and> k2 = k1 \<and> em = (if g [] then [p] else []) \<and>
                ex = (if g [] then [] else [p])) \<and>
             (src \<noteq> [] \<longrightarrow>
                em = (if filter g src = [] then [] else [length h1]) \<and>
                h2 = (if filter g src = [] then h1 else h1 @ [rec (filter g src)]) \<and>
                ex = (if filter (\<lambda>t. \<not> g t) src = [] then [] else [length k1]) \<and>
                k2 = (if filter (\<lambda>t. \<not> g t) src = [] then k1
                      else k1 @ [rec (filter (\<lambda>t. \<not> g t) src)]))))
       \<and> (pattern \<noteq> [] \<longrightarrow>
          (rule = artifactTagFilter pattern \<and> g = (\<lambda>t. Match E pattern t = Inr True)
           \<or> rule = artifactTagFilterRegex pattern \<and> Compile E pattern = Inr g) \<longrightarrow>
          (\<forall>a \<in> set artifacts. a < length h) \<longrightarrow>
          ArtifactFilter_Filter E (rule decoration) h artifacts = Inr (Mu, hMu) \<longrightarrow>
          ArtifactFilter_Filter E (rule Excludes) h artifacts = Inr (Xu, hXu) \<longrightarrow>
          (\<lambda>q. (Type (hMu ! q), Digest (hMu ! q), Labels (hMu ! q))) ` set Mu
          \<union> (\<lambda>q. (Type (hXu ! q), Digest (hXu ! q), Labels (hXu ! q))) ` set Xu
          = (\<lambda>a. (Type (h ! a), Digest (h ! a), Labels (h ! a))) ` set artifacts)
       \<and> ArtifactFilter_Filter E (artifactLabelFilter [] dc) h artifacts = Inr (artifacts, h)
       \<and> ArtifactFilter_Filter E (artifactLabelFilterRegex [] dc) h artifacts = Inr (artifacts, h)
       \<and> ArtifactFilter_Filter E (artifactTagFilter [] dc) h artifacts = Inr (artifacts, h)
       \<and> ArtifactFilter_Filter E (artifactTagFilterRegex [] dc) h artifacts = Inr (artifacts, h)"
  unfolding src_def rec_def
proof (intro conjI)
  show "ls \<noteq> [] \<longrightarrow> (\<forall>a \<in> set artifacts. a < length h) \<longrightarrow>
          (\<exists>M X. artifactLabelFilter_Filter ls decoration h artifacts = Inr (M, h) \<and>
                 artifactLabelFilter_Filter ls Excludes h artifacts = Inr (X, h) \<and>
                 M = filter (\<lambda>a. set ls \<subseteq> set (Labels (h ! a))) artifacts \<and>
                 X = filter (\<lambda>a. \<not> set ls \<subseteq> set (Labels (h ! a))) artifacts \<and>
                 set M \<inter> set X = {} \<and> set M \<union> set X = set artifacts)"
    by (intro impI) (rule label_partition [OF _ _ d])
  show "ls \<noteq> [] \<longrightarrow>
          artifactLabelFilterRegex_Filter E ls decoration h artifacts = Inr (Ml, hMl) \<longrightarrow>
          artifactLabelFilterRegex_Filter E ls Excludes h artifacts = Inr (Xl, hXl) \<longrightarrow>
          hMl = h \<and> hXl = h \<and>
          Ml = filter (\<lambda>a. labelRegex_outer E h artifacts a ls = Inr True) artifacts \<and>
          Xl = filter (\<lambda>a. labelRegex_outer E h artifacts a ls \<noteq> Inr True) artifacts \<and>
          set Ml \<inter> set Xl = {} \<and> set Ml \<union> set Xl = set artifacts"
    by (intro impI) (rule labelRegex_partition [OF _ d])
  show "ArtifactFilter_Filter E (artifactLabelFilter [] dc) h artifacts = Inr (artifacts, h)"
    by (simp add: artifactLabelFilter_Filter_def)
  show "ArtifactFilter_Filter E (artifactLabelFilterRegex [] dc) h artifacts = Inr (artifacts, h)"
    by (simp add: artifactLabelFilterRegex_Filter_def)
  show "ArtifactFilter_Filter E (artifactTagFilter [] dc) h artifacts = Inr (artifacts, h)"
    by (simp add: artifactTagFilter_Filter_def)
  show "ArtifactFilter_Filter E (artifactTagFilterRegex [] dc) h artifacts = Inr (artifacts, h)"
    by (simp add: artifactTagFilterRegex_Filter_def)
qed ((intro impI, rule tag_rule_both_at [OF _ _ d], assumption+)
     | (intro impI, rule tag_rule_union [OF _ _ d], assumption+))+

theorem matches_excludes_of_one_rule_witness:
  "artifactLabelFilter_Filter [''stable''] Matches
     [\<lparr>Type = ''image'', Digest = ''sha256:aa'', Labels = [''stable''],
       Tags = [''v1'', ''latest''], IsAcc = False, ParentTags = []\<rparr>,
      \<lparr>Type = ''chart'', Digest = ''sha256:bb'', Labels = [],
       Tags = [''latest''], IsAcc = False, ParentTags = []\<rparr>] [0, 1]
   = Inr ([0],
     [\<lparr>Type = ''image'', Digest = ''sha256:aa'', Labels = [''stable''],
       Tags = [''v1'', ''latest''], IsAcc = False, ParentTags = []\<rparr>,
      \<lparr>Type = ''chart'', Digest = ''sha256:bb'', Labels = [],
       Tags = [''latest''], IsAcc = False, ParentTags = []\<rparr>])
   \<and> artifactLabelFilter_Filter [''stable''] Excludes
     [\<lparr>Type = ''image'', Digest = ''sha256:aa'', Labels = [''stable''],
       Tags = [''v1'', ''latest''], IsAcc = False, ParentTags = []\<rparr>,
      \<lparr>Type = ''chart'', Digest = ''sha256:bb'', Labels = [],
       Tags = [''latest''], IsAcc = False, ParentTags = []\<rparr>] [0, 1]
   = Inr ([1],
     [\<lparr>Type = ''image'', Digest = ''sha256:aa'', Labels = [''stable''],
       Tags = [''v1'', ''latest''], IsAcc = False, ParentTags = []\<rparr>,
      \<lparr>Type = ''chart'', Digest = ''sha256:bb'', Labels = [],
       Tags = [''latest''], IsAcc = False, ParentTags = []\<rparr>])
   \<and> artifactLabelFilterRegex_Filter go [''^s.*''] Matches
     [\<lparr>Type = ''image'', Digest = ''sha256:aa'', Labels = [''stable''],
       Tags = [''v1'', ''latest''], IsAcc = False, ParentTags = []\<rparr>,
      \<lparr>Type = ''chart'', Digest = ''sha256:bb'', Labels = [],
       Tags = [''latest''], IsAcc = False, ParentTags = []\<rparr>] [0, 1]
   = Inr ([0, 1],
     [\<lparr>Type = ''image'', Digest = ''sha256:aa'', Labels = [''stable''],
       Tags = [''v1'', ''latest''], IsAcc = False, ParentTags = []\<rparr>,
      \<lparr>Type = ''chart'', Digest = ''sha256:bb'', Labels = [],
       Tags = [''latest''], IsAcc = False, ParentTags = []\<rparr>])
   \<and> artifactLabelFilterRegex_Filter go [''^s.*''] Excludes
     [\<lparr>Type = ''image'', Digest = ''sha256:aa'', Labels = [''stable''],
       Tags = [''v1'', ''latest''], IsAcc = False, ParentTags = []\<rparr>,
      \<lparr>Type = ''chart'', Digest = ''sha256:bb'', Labels = [],
       Tags = [''latest''], IsAcc = False, ParentTags = []\<rparr>] [0, 1]
   = Inr ([],
     [\<lparr>Type = ''image'', Digest = ''sha256:aa'', Labels = [''stable''],
       Tags = [''v1'', ''latest''], IsAcc = False, ParentTags = []\<rparr>,
      \<lparr>Type = ''chart'', Digest = ''sha256:bb'', Labels = [],
       Tags = [''latest''], IsAcc = False, ParentTags = []\<rparr>])
   \<and> set [0::nat, 1] \<inter> set [] = {} \<and> set [0::nat, 1] \<union> set [] = set [0, 1]
   \<and> ArtifactFilter_Filter go (artifactTagFilter ''v*'' Matches)
     [\<lparr>Type = ''image'', Digest = ''sha256:aa'', Labels = [''stable''],
       Tags = [''v1'', ''latest''], IsAcc = False, ParentTags = []\<rparr>,
      \<lparr>Type = ''chart'', Digest = ''sha256:bb'', Labels = [],
       Tags = [''latest''], IsAcc = False, ParentTags = []\<rparr>] [0, 1]
   = Inr ([2],
     [\<lparr>Type = ''image'', Digest = ''sha256:aa'', Labels = [''stable''],
       Tags = [''v1'', ''latest''], IsAcc = False, ParentTags = []\<rparr>,
      \<lparr>Type = ''chart'', Digest = ''sha256:bb'', Labels = [],
       Tags = [''latest''], IsAcc = False, ParentTags = []\<rparr>,
      \<lparr>Type = ''image'', Digest = ''sha256:aa'', Labels = [''stable''],
       Tags = [''v1''], IsAcc = False, ParentTags = []\<rparr>])
   \<and> ArtifactFilter_Filter go (artifactTagFilter ''v*'' Excludes)
     [\<lparr>Type = ''image'', Digest = ''sha256:aa'', Labels = [''stable''],
       Tags = [''v1'', ''latest''], IsAcc = False, ParentTags = []\<rparr>,
      \<lparr>Type = ''chart'', Digest = ''sha256:bb'', Labels = [],
       Tags = [''latest''], IsAcc = False, ParentTags = []\<rparr>] [0, 1]
   = Inr ([2, 3],
     [\<lparr>Type = ''image'', Digest = ''sha256:aa'', Labels = [''stable''],
       Tags = [''v1'', ''latest''], IsAcc = False, ParentTags = []\<rparr>,
      \<lparr>Type = ''chart'', Digest = ''sha256:bb'', Labels = [],
       Tags = [''latest''], IsAcc = False, ParentTags = []\<rparr>,
      \<lparr>Type = ''image'', Digest = ''sha256:aa'', Labels = [''stable''],
       Tags = [''latest''], IsAcc = False, ParentTags = []\<rparr>,
      \<lparr>Type = ''chart'', Digest = ''sha256:bb'', Labels = [],
       Tags = [''latest''], IsAcc = False, ParentTags = []\<rparr>])
   \<and> (\<exists>em h2 ex k2.
        ArtifactFilter_Filter go (artifactTagFilter ''v*'' Matches)
          [\<lparr>Type = ''image'', Digest = ''sha256:aa'', Labels = [''stable''],
            Tags = [''v1'', ''latest''], IsAcc = False, ParentTags = []\<rparr>,
           \<lparr>Type = ''chart'', Digest = ''sha256:bb'', Labels = [],
            Tags = [''latest''], IsAcc = False, ParentTags = []\<rparr>] [0] = Inr (em, h2) \<and>
        ArtifactFilter_Filter go (artifactTagFilter ''v*'' Excludes)
          [\<lparr>Type = ''image'', Digest = ''sha256:aa'', Labels = [''stable''],
            Tags = [''v1'', ''latest''], IsAcc = False, ParentTags = []\<rparr>,
           \<lparr>Type = ''chart'', Digest = ''sha256:bb'', Labels = [],
            Tags = [''latest''], IsAcc = False, ParentTags = []\<rparr>] [0] = Inr (ex, k2) \<and>
        em \<noteq> [] \<and> ex \<noteq> [])
   \<and> {(''image'', ''sha256:aa'', [''stable''])}
       \<union> {(''image'', ''sha256:aa'', [''stable'']), (''chart'', ''sha256:bb'', [])}
     = {(''image'', ''sha256:aa'', [''stable'']), (''chart'', ''sha256:bb'', [])}"
proof -
  let ?a = "\<lparr>Type = ''image'', Digest = ''sha256:aa'', Labels = [''stable''],
       Tags = [''v1'', ''latest''], IsAcc = False, ParentTags = []\<rparr>"
  let ?b = "\<lparr>Type = ''chart'', Digest = ''sha256:bb'', Labels = [],
       Tags = [''latest''], IsAcc = False, ParentTags = []\<rparr>"
  let ?a1 = "\<lparr>Type = ''image'', Digest = ''sha256:aa'', Labels = [''stable''],
       Tags = [''v1''], IsAcc = False, ParentTags = []\<rparr>"
  let ?a2 = "\<lparr>Type = ''image'', Digest = ''sha256:aa'', Labels = [''stable''],
       Tags = [''latest''], IsAcc = False, ParentTags = []\<rparr>"
  let ?g = "\<lambda>t. Match go ''v*'' t = Inr True"
  have d: "Matches \<noteq> Excludes" by (simp add: Matches_def Excludes_def)
  have v: "\<forall>a \<in> set [0, 1]. a < length [?a, ?b]" by simp
  have rule: "artifactTagFilter ''v*'' = artifactTagFilter ''v*'' \<and> ?g = (\<lambda>t. Match go ''v*'' t = Inr True)
      \<or> artifactTagFilter ''v*'' = artifactTagFilterRegex ''v*'' \<and> Compile go ''v*'' = Inr ?g"
    by simp
  have rm: "ArtifactFilter_Filter go (artifactTagFilter ''v*'' Matches) [?a, ?b] ([] @ 0 # [1])
      = Inr ([2], [?a, ?b, ?a1])"
    by (simp add: tag_eval)
  have rx: "ArtifactFilter_Filter go (artifactTagFilter ''v*'' Excludes) [?a, ?b] ([] @ 0 # [1])
      = Inr ([2, 3], [?a, ?b, ?a2, ?b])"
    by (simp add: tag_eval)
  have lm: "artifactLabelFilterRegex_Filter go [''^s.*''] Matches [?a, ?b] [0, 1]
      = Inr ([0, 1], [?a, ?b])"
    by (simp add: artifactLabelFilterRegex_Filter_def deref_def go_def rx_Compile_def rx_char_def
        decorated_def Matches_def Excludes_def)
  have lx: "artifactLabelFilterRegex_Filter go [''^s.*''] Excludes [?a, ?b] [0, 1]
      = Inr ([], [?a, ?b])"
    by (simp add: artifactLabelFilterRegex_Filter_def deref_def go_def rx_Compile_def rx_char_def
        decorated_def Matches_def Excludes_def)
  note T = matches_excludes_of_one_rule [OF d, where artifacts = "[0, 1]"
      and h = "[?a, ?b]" and pattern = "''v*''" and E = go and rule = "artifactTagFilter ''v*''"
      and g = ?g and p = 0 and xs = "[]" and ys = "[1]"
      and Mt = "[2]" and hMt = "[?a, ?b, ?a1]" and Xt = "[2, 3]" and hXt = "[?a, ?b, ?a2, ?b]"
      and Mu = "[2]" and hMu = "[?a, ?b, ?a1]" and Xu = "[2, 3]" and hXu = "[?a, ?b, ?a2, ?b]"]
  from T [where ls = "[''stable'']", THEN conjunct1, THEN mp, THEN mp, OF _ v] obtain M X where
    m: "artifactLabelFilter_Filter [''stable''] Matches [?a, ?b] [0, 1] = Inr (M, [?a, ?b])" and
    x: "artifactLabelFilter_Filter [''stable''] Excludes [?a, ?b] [0, 1] = Inr (X, [?a, ?b])" and
    M: "M = filter (\<lambda>p. set [''stable''] \<subseteq> set (Labels ([?a, ?b] ! p))) [0, 1]" and
    X: "X = filter (\<lambda>p. \<not> set [''stable''] \<subseteq> set (Labels ([?a, ?b] ! p))) [0, 1]"
    by auto
  from M have M': "M = [0]" by simp
  from X have X': "X = [1]" by simp
  from T [where ls = "[''^s.*'']", THEN conjunct2, THEN conjunct1, rule_format, OF _ lm lx]
  have part: "set [0::nat, 1] \<inter> set [] = {} \<and> set [0::nat, 1] \<union> set [] = set [0, 1]"
    by simp
  from T [THEN conjunct2, THEN conjunct2, THEN conjunct1, rule_format, OF _ rule _ rm rx]
  obtain M1 h1 em h2 M2 X1 k1 ex k2 X2 where
    f1: "ArtifactFilter_Filter go (artifactTagFilter ''v*'' Matches) [?a, ?b] [] = Inr (M1, h1)" and
    f2: "ArtifactFilter_Filter go (artifactTagFilter ''v*'' Matches) h1 [0] = Inr (em, h2)" and
    f3: "ArtifactFilter_Filter go (artifactTagFilter ''v*'' Excludes) [?a, ?b] [] = Inr (X1, k1)" and
    f4: "ArtifactFilter_Filter go (artifactTagFilter ''v*'' Excludes) k1 [0] = Inr (ex, k2)" and
    f5: "(em \<noteq> [] \<and> ex \<noteq> []) =
         ((\<exists>t \<in> set (tagsForMatching ([?a, ?b] ! 0)). Match go ''v*'' t = Inr True)
          \<and> (\<exists>t \<in> set (tagsForMatching ([?a, ?b] ! 0)). Match go ''v*'' t \<noteq> Inr True))"
    by blast
  from f1 have h1: "h1 = [?a, ?b]" by (simp add: artifactTagFilter_Filter_def)
  from f3 have k1: "k1 = [?a, ?b]" by (simp add: artifactTagFilter_Filter_def)
  from f5 have "em \<noteq> [] \<and> ex \<noteq> []" by (simp add: tag_eval)
  with f2 f4 h1 k1
  have both: "\<exists>em h2 ex k2.
        ArtifactFilter_Filter go (artifactTagFilter ''v*'' Matches) [?a, ?b] [0] = Inr (em, h2) \<and>
        ArtifactFilter_Filter go (artifactTagFilter ''v*'' Excludes) [?a, ?b] [0] = Inr (ex, k2) \<and>
        em \<noteq> [] \<and> ex \<noteq> []"
    by blast
  from T [THEN conjunct2, THEN conjunct2, THEN conjunct2, THEN conjunct1,
      THEN mp, THEN mp, THEN mp, OF _ rule v] rm rx
  have "(\<lambda>q. (Type ([?a, ?b, ?a1] ! q), Digest ([?a, ?b, ?a1] ! q), Labels ([?a, ?b, ?a1] ! q))) ` set [2]
          \<union> (\<lambda>q. (Type ([?a, ?b, ?a2, ?b] ! q), Digest ([?a, ?b, ?a2, ?b] ! q),
                    Labels ([?a, ?b, ?a2, ?b] ! q))) ` set [2, 3]
          = (\<lambda>p. (Type ([?a, ?b] ! p), Digest ([?a, ?b] ! p), Labels ([?a, ?b] ! p))) ` set [0, 1]"
    by simp
  then have u: "{(''image'', ''sha256:aa'', [''stable''])}
       \<union> {(''image'', ''sha256:aa'', [''stable'']), (''chart'', ''sha256:bb'', [])}
     = {(''image'', ''sha256:aa'', [''stable'']), (''chart'', ''sha256:bb'', [])}"
    by simp
  have rm': "ArtifactFilter_Filter go (artifactTagFilter ''v*'' Matches) [?a, ?b] [0, 1]
      = Inr ([2], [?a, ?b, ?a1])"
    using rm by simp
  have rx': "ArtifactFilter_Filter go (artifactTagFilter ''v*'' Excludes) [?a, ?b] [0, 1]
      = Inr ([2, 3], [?a, ?b, ?a2, ?b])"
    using rx by simp
  from m [unfolded M'] x [unfolded X'] lm lx part rm' rx' both u show ?thesis
    by (intro conjI) (simp_all only:)
qed

subsection \<open>The pipeline\<close>

lemma ArtifactFilters_Filter_append:
  "ArtifactFilters_Filter E (fs @ gs) h artifacts =
     (case ArtifactFilters_Filter E fs h artifacts of
        Inl err \<Rightarrow> Inl err
      | Inr (artifacts', h') \<Rightarrow> ArtifactFilters_Filter E gs h' artifacts')"
  by (induction fs arbitrary: h artifacts) (auto split: sum.splits)

text \<open>
  Claim C6: the pipeline applies the strategies in list order, each to what the one before it
  returned, from the input on. An empty list gives the input back; a single strategy gives what
  that strategy gives; a list \<open>fs @ gs\<close> gives what \<open>gs\<close> gives on the artifacts and the store
  that \<open>fs\<close> returned; when a strategy fails after the ones before it succeeded, the pipeline
  returns that error and no artifacts, whatever follows; the rules TagRegex
  \<^verbatim>\<open>(unterminated\<close>, Tag \<^verbatim>\<open>*\<close> return the compile error of the first, whatever the glob
  matcher would do.
\<close>

theorem pipeline_in_order_first_error_aborts:
  "ArtifactFilters_Filter E [] h artifacts = Inr (artifacts, h)
   \<and> ArtifactFilters_Filter E [f] h artifacts = ArtifactFilter_Filter E f h artifacts
   \<and> ArtifactFilters_Filter E (f # fs) h artifacts =
       (case ArtifactFilter_Filter E f h artifacts of
          Inl err \<Rightarrow> Inl err
        | Inr (artifacts', h') \<Rightarrow> ArtifactFilters_Filter E fs h' artifacts')
   \<and> ArtifactFilters_Filter E (fs @ gs) h artifacts =
       (case ArtifactFilters_Filter E fs h artifacts of
          Inl err \<Rightarrow> Inl err
        | Inr (artifacts', h') \<Rightarrow> ArtifactFilters_Filter E gs h' artifacts')
   \<and> (ArtifactFilters_Filter E fs h artifacts = Inr (artifacts1, h1) \<longrightarrow>
        ArtifactFilter_Filter E f h1 artifacts1 = Inr (artifacts2, h2) \<longrightarrow>
        ArtifactFilters_Filter E (fs @ [f]) h artifacts = Inr (artifacts2, h2))
   \<and> (ArtifactFilters_Filter E fs h artifacts = Inr (artifacts1, h1) \<longrightarrow>
        ArtifactFilter_Filter E f h1 artifacts1 = Inl err \<longrightarrow>
        ArtifactFilters_Filter E (fs @ f # gs) h artifacts = Inl err)
   \<and> (Compile E ''(unterminated'' = Inl err \<longrightarrow>
        DoFilterArtifacts (E\<lparr>Match := M\<rparr>) h artifacts
          [Some \<lparr>FType = FilterTypeTagRegex, Value = StringValue ''(unterminated'',
                  Decoration = d1\<rparr>,
           Some \<lparr>FType = FilterTypeTag, Value = StringValue ''*'', Decoration = d2\<rparr>] = Inl err)"
proof -
  have single: "ArtifactFilters_Filter E [f] h artifacts = ArtifactFilter_Filter E f h artifacts"
    by (cases "ArtifactFilter_Filter E f h artifacts") auto
  have last: "ArtifactFilters_Filter E (fs @ [f]) h artifacts = Inr (artifacts2, h2)"
    if "ArtifactFilters_Filter E fs h artifacts = Inr (artifacts1, h1)"
      and "ArtifactFilter_Filter E f h1 artifacts1 = Inr (artifacts2, h2)"
    using that by (simp add: ArtifactFilters_Filter_append)
  have abort: "ArtifactFilters_Filter E (fs @ f # gs) h artifacts = Inl err"
    if "ArtifactFilters_Filter E fs h artifacts = Inr (artifacts1, h1)"
      and "ArtifactFilter_Filter E f h1 artifacts1 = Inl err"
    using that by (simp add: ArtifactFilters_Filter_append)
  have rules: "DoFilterArtifacts (E\<lparr>Match := M\<rparr>) h artifacts
          [Some \<lparr>FType = FilterTypeTagRegex, Value = StringValue ''(unterminated'',
                  Decoration = d1\<rparr>,
           Some \<lparr>FType = FilterTypeTag, Value = StringValue ''*'', Decoration = d2\<rparr>] = Inl err"
    if "Compile E ''(unterminated'' = Inl err"
    using that
    by (simp add: DoFilterArtifacts_def BuildArtifactFilters_def build_switch_def
        artifactTagFilterRegex_Filter_def)
  from single last abort rules show ?thesis
    by (simp add: ArtifactFilters_Filter_append)
qed

theorem pipeline_in_order_first_error_aborts_witness:
  "ArtifactFilters_Filter go [artifactTagFilterRegex ''v.*'' Matches]
     [\<lparr>Type = ''image'', Digest = ''sha256:aa'', Labels = [''stable''],
       Tags = [''v1'', ''beta''], IsAcc = False, ParentTags = []\<rparr>] [0]
   = Inr ([1],
     [\<lparr>Type = ''image'', Digest = ''sha256:aa'', Labels = [''stable''],
       Tags = [''v1'', ''beta''], IsAcc = False, ParentTags = []\<rparr>,
      \<lparr>Type = ''image'', Digest = ''sha256:aa'', Labels = [''stable''],
       Tags = [''v1''], IsAcc = False, ParentTags = []\<rparr>])
   \<and> ArtifactFilter_Filter go (artifactLabelFilter [''stable''] Matches)
     [\<lparr>Type = ''image'', Digest = ''sha256:aa'', Labels = [''stable''],
       Tags = [''v1'', ''beta''], IsAcc = False, ParentTags = []\<rparr>,
      \<lparr>Type = ''image'', Digest = ''sha256:aa'', Labels = [''stable''],
       Tags = [''v1''], IsAcc = False, ParentTags = []\<rparr>] [1]
   = Inr ([1],
     [\<lparr>Type = ''image'', Digest = ''sha256:aa'', Labels = [''stable''],
       Tags = [''v1'', ''beta''], IsAcc = False, ParentTags = []\<rparr>,
      \<lparr>Type = ''image'', Digest = ''sha256:aa'', Labels = [''stable''],
       Tags = [''v1''], IsAcc = False, ParentTags = []\<rparr>])
   \<and> ArtifactFilters_Filter go
       ([artifactTagFilterRegex ''v.*'' Matches] @ [artifactLabelFilter [''stable''] Matches])
     [\<lparr>Type = ''image'', Digest = ''sha256:aa'', Labels = [''stable''],
       Tags = [''v1'', ''beta''], IsAcc = False, ParentTags = []\<rparr>] [0]
   = Inr ([1],
     [\<lparr>Type = ''image'', Digest = ''sha256:aa'', Labels = [''stable''],
       Tags = [''v1'', ''beta''], IsAcc = False, ParentTags = []\<rparr>,
      \<lparr>Type = ''image'', Digest = ''sha256:aa'', Labels = [''stable''],
       Tags = [''v1''], IsAcc = False, ParentTags = []\<rparr>])
   \<and> ArtifactFilter_Filter go (artifactTagFilterRegex ''(unterminated'' Matches)
     [\<lparr>Type = ''image'', Digest = ''sha256:aa'', Labels = [''stable''],
       Tags = [''v1'', ''beta''], IsAcc = False, ParentTags = []\<rparr>,
      \<lparr>Type = ''image'', Digest = ''sha256:aa'', Labels = [''stable''],
       Tags = [''v1''], IsAcc = False, ParentTags = []\<rparr>] [1]
   = Inl (Err ''error parsing regexp'')
   \<and> ArtifactFilters_Filter go
       ([artifactTagFilterRegex ''v.*'' Matches] @
        artifactTagFilterRegex ''(unterminated'' Matches # [artifactTagFilter ''*'' Matches])
     [\<lparr>Type = ''image'', Digest = ''sha256:aa'', Labels = [''stable''],
       Tags = [''v1'', ''beta''], IsAcc = False, ParentTags = []\<rparr>] [0]
   = Inl (Err ''error parsing regexp'')
   \<and> Compile go ''(unterminated'' = Inl (Err ''error parsing regexp'')
   \<and> DoFilterArtifacts (go\<lparr>Match := \<lambda>p s. Inl (Panic IndexOutOfRange)\<rparr>)
       [\<lparr>Type = ''image'', Digest = ''sha256:aa'', Labels = [''stable''],
         Tags = [''v1'', ''beta''], IsAcc = False, ParentTags = []\<rparr>] [0]
       [Some \<lparr>FType = FilterTypeTagRegex, Value = StringValue ''(unterminated'',
               Decoration = Matches\<rparr>,
        Some \<lparr>FType = FilterTypeTag, Value = StringValue ''*'', Decoration = Matches\<rparr>]
   = Inl (Err ''error parsing regexp'')"
proof -
  let ?a = "\<lparr>Type = ''image'', Digest = ''sha256:aa'', Labels = [''stable''],
       Tags = [''v1'', ''beta''], IsAcc = False, ParentTags = []\<rparr>"
  let ?b = "\<lparr>Type = ''image'', Digest = ''sha256:aa'', Labels = [''stable''],
       Tags = [''v1''], IsAcc = False, ParentTags = []\<rparr>"
  have first: "ArtifactFilters_Filter go [artifactTagFilterRegex ''v.*'' Matches] [?a] [0]
      = Inr ([1], [?a, ?b])"
    by (simp add: tag_eval)
  have second: "ArtifactFilter_Filter go (artifactLabelFilter [''stable''] Matches) [?a, ?b] [1]
      = Inr ([1], [?a, ?b])"
    by (simp add: artifactLabelFilter_Filter_def deref_def decorated_def Matches_def Excludes_def)
  have c: "Compile go ''(unterminated'' = Inl (Err ''error parsing regexp'')"
    by (simp add: go_def rx_Compile_def)
  have bad: "ArtifactFilter_Filter go (artifactTagFilterRegex ''(unterminated'' Matches) [?a, ?b] [1]
     = Inl (Err ''error parsing regexp'')"
    by (simp add: artifactTagFilterRegex_Filter_def c)
  note T = pipeline_in_order_first_error_aborts [where E = go and h = "[?a]" and artifacts = "[0]"
      and fs = "[artifactTagFilterRegex ''v.*'' Matches]" and ?artifacts1.0 = "[1]"
      and ?h1.0 = "[?a, ?b]" and err = "Err ''error parsing regexp''"
      and gs = "[artifactTagFilter ''*'' Matches]"
      and M = "\<lambda>p s. Inl (Panic IndexOutOfRange)" and ?d1.0 = Matches and ?d2.0 = Matches]
  have both: "ArtifactFilters_Filter go
       ([artifactTagFilterRegex ''v.*'' Matches] @ [artifactLabelFilter [''stable''] Matches]) [?a] [0]
      = Inr ([1], [?a, ?b])"
    using T [where f = "artifactLabelFilter [''stable''] Matches" and ?artifacts2.0 = "[1]"
        and ?h2.0 = "[?a, ?b]"] first second
    by blast
  have stop: "ArtifactFilters_Filter go
       ([artifactTagFilterRegex ''v.*'' Matches] @
        artifactTagFilterRegex ''(unterminated'' Matches # [artifactTagFilter ''*'' Matches]) [?a] [0]
      = Inl (Err ''error parsing regexp'')"
    using T [where f = "artifactTagFilterRegex ''(unterminated'' Matches"] first bad
    by blast
  have rules: "DoFilterArtifacts (go\<lparr>Match := \<lambda>p s. Inl (Panic IndexOutOfRange)\<rparr>) [?a] [0]
       [Some \<lparr>FType = FilterTypeTagRegex, Value = StringValue ''(unterminated'',
               Decoration = Matches\<rparr>,
        Some \<lparr>FType = FilterTypeTag, Value = StringValue ''*'', Decoration = Matches\<rparr>]
      = Inl (Err ''error parsing regexp'')"
    using T [where f = "artifactTagFilterRegex ''(unterminated'' Matches"] c
    by blast
  from first second both bad stop c rules show ?thesis by blast
qed

subsection \<open>The type filter\<close>

text \<open>
  What the two loops compute: each artifact is appended once for every configured type that its
  type equals.
\<close>

lemma typeFilter_types_count:
  "p < length h \<Longrightarrow>
   typeFilter_types E h p ts res =
     Inr (res @ replicate
        (length (filter (\<lambda>t. EqualFold E (ToLower E (Type (h ! p))) (ToLower E t)) ts)) p)"
  by (induction ts arbitrary: res) (simp_all add: deref_def replicate_app_Cons_same)

lemma typeFilter_loop_count:
  "\<forall>p \<in> set ps. p < length h \<Longrightarrow>
   typeFilter_loop E types h ps res =
     Inr (res @ concat (map (\<lambda>p. replicate
        (length (filter (\<lambda>t. EqualFold E (ToLower E (Type (h ! p))) (ToLower E t)) types)) p) ps))"
  by (induction ps arbitrary: res) (simp_all add: typeFilter_types_count)

text \<open>
  Claim C7 says that every artifact of a configured type is returned exactly once. The
  \<^verbatim>\<open>continue\<close> after the append continues the loop over the types, so an artifact is
  appended once for each configured type its own type equals: with the types \<^verbatim>\<open>image\<close> and
  \<^verbatim>\<open>IMAGE\<close> an artifact of type \<^verbatim>\<open>Image\<close> is returned twice.
\<close>

theorem typeFilter_appends_once_per_equal_type:
  "artifactTypeFilter_Filter go [''image'', ''IMAGE'']
     [\<lparr>Type = ''Image'', Digest = ''sha256:aa'', Labels = [], Tags = [''v1''], IsAcc = False, ParentTags = []\<rparr>]
     [0]
   = Inr ([0, 0],
     [\<lparr>Type = ''Image'', Digest = ''sha256:aa'', Labels = [], Tags = [''v1''], IsAcc = False, ParentTags = []\<rparr>])"
  by (simp add: artifactTypeFilter_Filter_def deref_def go_def lower_char_def)

subsection \<open>The builder\<close>

text \<open>
  Claim C8 promises a strategy list for any rule list. A rule of kind Label whose value is a
  string and not a list of strings makes the type assertion panic, and a nil entry of the rule
  list makes the read of its kind panic: the builder gives no strategy list for either.
\<close>

theorem build_panics_on_wrong_value_type_or_nil:
  "BuildArtifactFilters
     [Some \<lparr>FType = FilterTypeLabel, Value = StringValue ''stable'', Decoration = Matches\<rparr>]
   = Inl (Panic InterfaceConversion)
   \<and> BuildArtifactFilters [None] = Inl (Panic NilPointerDereference)"
  by (simp add: BuildArtifactFilters_def build_switch_def)

lemma build_switch_fits:
  "value_fits (FType flt) (Value flt) \<Longrightarrow>
   build_switch flt = Inr (spec_strategy (FType flt) (Value flt) (Decoration flt))"
  by (cases "FType flt"; cases "Value flt") (simp_all add: build_switch_def)

lemma build_loop_fits:
  "None \<notin> set filters \<Longrightarrow>
   \<forall>flt. Some flt \<in> set filters \<longrightarrow> value_fits (FType flt) (Value flt) \<Longrightarrow>
   build_loop filters fs =
     Inr (fs @ List.map_filter
        (\<lambda>r. case r of
                None \<Rightarrow> None
              | Some flt \<Rightarrow> spec_strategy (FType flt) (Value flt) (Decoration flt)) filters)"
proof (induction filters arbitrary: fs)
  case Nil
  show ?case by (simp add: List.map_filter_simps)
next
  case (Cons r filters)
  from Cons.prems(1) obtain flt where r: "r = Some flt" by (cases r) auto
  from Cons.prems(2) r have fits: "value_fits (FType flt) (Value flt)" by simp
  from Cons.prems have rest: "None \<notin> set filters"
    "\<forall>flt. Some flt \<in> set filters \<longrightarrow> value_fits (FType flt) (Value flt)"
    by simp_all
  show ?case
    by (cases "spec_strategy (FType flt) (Value flt) (Decoration flt)")
       (simp_all add: r build_switch_fits [OF fits] Cons.IH [OF rest] List.map_filter_simps)
qed

text \<open>
  Claim C8, for rule lists without a nil entry whose rules carry a value of the dynamic type their
  kind asserts: the builder neither panics nor returns an error; its result is the list of the
  strategies of the rules of kind Label, LabelRegex, Tag and TagRegex, one for each, in the order
  of the rules, the rules of any other kind being skipped.
\<close>

theorem build_one_strategy_per_known_rule_in_order:
  assumes "None \<notin> set filters"
    and "\<forall>flt. Some flt \<in> set filters \<longrightarrow> value_fits (FType flt) (Value flt)"
  shows "BuildArtifactFilters filters =
     Inr (List.map_filter
        (\<lambda>r. case r of
                None \<Rightarrow> None
              | Some flt \<Rightarrow> spec_strategy (FType flt) (Value flt) (Decoration flt)) filters)"
  using build_loop_fits [OF assms, of "[]"] by (simp add: BuildArtifactFilters_def)

theorem build_one_strategy_per_known_rule_in_order_witness:
  "BuildArtifactFilters
     [Some \<lparr>FType = FilterTypeTagRegex, Value = StringValue ''v.*'', Decoration = Matches\<rparr>,
      Some \<lparr>FType = FilterTypeOther ''name'', Value = OtherValue, Decoration = Matches\<rparr>,
      Some \<lparr>FType = FilterTypeLabel, Value = StringsValue [''stable''], Decoration = Excludes\<rparr>,
      Some \<lparr>FType = FilterTypeTag, Value = StringValue ''v*'', Decoration = Matches\<rparr>,
      Some \<lparr>FType = FilterTypeLabelRegex, Value = StringsValue [''^s.*''], Decoration = Matches\<rparr>]
   = Inr [artifactTagFilterRegex ''v.*'' Matches,
          artifactLabelFilter [''stable''] Excludes,
          artifactTagFilter ''v*'' Matches,
          artifactLabelFilterRegex [''^s.*''] Matches]"
  using build_one_strategy_per_known_rule_in_order
    [of "[Some \<lparr>FType = FilterTypeTagRegex, Value = StringValue ''v.*'', Decoration = Matches\<rparr>,
      Some \<lparr>FType = FilterTypeOther ''name'', Value = OtherValue, Decoration = Matches\<rparr>,
      Some \<lparr>FType = FilterTypeLabel, Value = StringsValue [''stable''], Decoration = Excludes\<rparr>,
      Some \<lparr>FType = FilterTypeTag, Value = StringValue ''v*'', Decoration = Matches\<rparr>,
      Some \<lparr>FType = FilterTypeLabelRegex, Value = StringsValue [''^s.*''], Decoration = Matches\<rparr>]"]
  by (simp add: List.map_filter_simps)

subsection \<open>Rules without a pattern\<close>


end
